theory Spec2Isabelle
  imports Complex_Main "HOL-Library.Sublist"
begin

section \<open>Data model (src/types.ts)\<close>

text \<open>
  A \<open>NewsItem\<close> as declared in \<open>src/types.ts\<close>. The optional field \<open>source\<close> is an
  option. The fields \<open>id\<close> and \<open>text\<close> carry a prime because the plain names are taken
  in Isabelle.
\<close>

record NewsItem =
  id' :: string
  time :: string
  text' :: string
  source :: "string option"
  ticker :: string

section \<open>The chunk planner (src/App.tsx, lines 35-63)\<close>

text \<open>
  A calendar date string \<open>YYYY-MM-DD\<close> is represented by the number of the UTC day it
  denotes (days since 1970-01-01); a JavaScript \<open>Date\<close> by its time value in
  milliseconds. \<open>new Date(str)\<close> of a date-only string is UTC midnight of that day,
  and \<open>toISOString().split('T')[0]\<close> is the UTC day of a time value. \<open>setDate\<close> is
  taken in UTC, where one calendar day is 86400000 ms. The JavaScript number
  \<open>itemsPerDay\<close> is an exact real here.
\<close>

type_synonym date_string = int
type_synonym Date = int

definition MS_PER_DAY :: int where
  "MS_PER_DAY = 86400000"

definition new_Date :: "date_string \<Rightarrow> Date" where
  "new_Date str = str * MS_PER_DAY"

definition toISODate :: "Date \<Rightarrow> date_string" where
  "toISODate d = d div MS_PER_DAY"

record chunk =
  start :: date_string
  end' :: date_string
  count :: int

definition TARGET_ITEMS_PER_REQ :: real where
  "TARGET_ITEMS_PER_REQ = 25"

definition rawDays :: "real \<Rightarrow> int" where
  "rawDays itemsPerDay = \<lceil>TARGET_ITEMS_PER_REQ / max (1 / 10) itemsPerDay\<rceil>"

definition chunkDays :: "real \<Rightarrow> int" where
  "chunkDays itemsPerDay = max 5 (min (rawDays itemsPerDay) 60)"

text \<open>
  The \<open>while (currentDate < finalDate)\<close> loop. The source pushes onto the array
  \<open>chunks\<close>; the model returns the chunks pushed from the current cursor on, in order.
\<close>

function planChunks :: "real \<Rightarrow> Date \<Rightarrow> Date \<Rightarrow> chunk list" where
  "planChunks itemsPerDay currentDate finalDate =
     (if currentDate < finalDate then
        (let chunkEnd = currentDate + chunkDays itemsPerDay * MS_PER_DAY;
             actualEnd = (if chunkEnd > finalDate then finalDate else chunkEnd);
             daysInChunk = real_of_int (actualEnd - currentDate) / real_of_int MS_PER_DAY;
             cnt = \<lceil>daysInChunk * itemsPerDay\<rceil>
         in (if cnt > 0
             then [\<lparr>start = toISODate currentDate, end' = toISODate actualEnd, count = cnt\<rparr>]
             else [])
            @ planChunks itemsPerDay actualEnd finalDate)
      else [])"
  by pat_completeness auto
termination
proof (relation "measure (\<lambda>(itemsPerDay, currentDate, finalDate). nat (finalDate - currentDate))")
  show "wf (measure (\<lambda>(itemsPerDay, currentDate, finalDate). nat (finalDate - currentDate)))"
    by simp
next
  fix itemsPerDay :: real and currentDate finalDate chunkEnd actualEnd :: int
  assume lt: "currentDate < finalDate"
    and ce: "chunkEnd = currentDate + chunkDays itemsPerDay * MS_PER_DAY"
    and ae: "actualEnd = (if finalDate < chunkEnd then finalDate else chunkEnd)"
  have "0 < chunkDays itemsPerDay * MS_PER_DAY"
    by (simp add: chunkDays_def MS_PER_DAY_def)
  then have "currentDate < actualEnd"
    using lt ce ae by simp
  then show "((itemsPerDay, actualEnd, finalDate), (itemsPerDay, currentDate, finalDate))
      \<in> measure (\<lambda>(itemsPerDay, currentDate, finalDate). nat (finalDate - currentDate))"
    using lt by simp
qed

declare planChunks.simps [simp del]

text \<open>Steps 1 and 2 of \<open>handleSequenceGenerate\<close>: the chunk list of a request.\<close>

definition plan :: "date_string \<Rightarrow> date_string \<Rightarrow> real \<Rightarrow> chunk list" where
  "plan startStr endStr itemsPerDay = planChunks itemsPerDay (new_Date startStr) (new_Date endStr)"


section \<open>Thrown values and string tests\<close>

text \<open>
  A thrown value is an \<open>Error\<close> object; its \<open>message\<close> may be undefined.
  \<open>str_includes s sub\<close> is \<open>String.prototype.includes\<close>: \<open>sub\<close> occurs in \<open>s\<close> as a
  contiguous substring. \<open>message_includes err sub\<close> is the source's test
  \<open>err.message && err.message.includes(sub)\<close>, where an undefined or empty message is
  falsy.
\<close>

datatype js_error = Error (message: "string option")

fun str_includes :: "string \<Rightarrow> string \<Rightarrow> bool" where
  "str_includes [] searchString = (searchString = [])"
| "str_includes (c # cs) searchString = (prefix searchString (c # cs) \<or> str_includes cs searchString)"

definition message_includes :: "js_error \<Rightarrow> string \<Rightarrow> bool" where
  "message_includes err searchString =
     (case message err of
        None \<Rightarrow> False
      | Some m \<Rightarrow> m \<noteq> [] \<and> str_includes m searchString)"

section \<open>The fetch service (src/services/geminiService.ts)\<close>

datatype GenerationMode = LIVE_SEARCH | SYNTHETIC

definition MAX_RETRIES :: nat where
  "MAX_RETRIES = 3"

text \<open>
  The outside world of \<open>fetchESGNews\<close>: the environment variable \<open>API_KEY\<close> and, for
  the arguments of the call and the value of \<open>attempt\<close>, what the \<open>try\<close> block does on
  that attempt: it returns the mapped items, or something in it throws (the request,
  \<open>JSON.parse\<close> or the mapping). The effects of a call are logged: each request made
  and each back-off delay in milliseconds.
\<close>

record service_env =
  apiKey :: "string option"
  tryBlock :: "string \<Rightarrow> date_string \<Rightarrow> date_string \<Rightarrow> GenerationMode \<Rightarrow> int \<Rightarrow> nat
               \<Rightarrow> js_error + NewsItem list"

datatype service_event = GenerateContent nat | Backoff nat

text \<open>The \<open>while (attempt < MAX_RETRIES)\<close> loop of lines 81-133, and the throw of line 136.\<close>

function retryLoop :: "(nat \<Rightarrow> js_error + NewsItem list) \<Rightarrow> nat \<Rightarrow> service_event list
    \<Rightarrow> (js_error + NewsItem list) \<times> service_event list" where
  "retryLoop body attempt events =
     (if attempt < MAX_RETRIES then
        (case body attempt of
           Inr items \<Rightarrow> (Inr items, events @ [GenerateContent attempt])
         | Inl err \<Rightarrow>
             (let attempt' = attempt + 1;
                  events' = events @ [GenerateContent attempt]
              in if message_includes err ''API Key'' then (Inl err, events')
                 else if attempt' = MAX_RETRIES then (Inl err, events')
                 else retryLoop body attempt' (events' @ [Backoff (1000 * 2 ^ attempt')])))
      else (Inl (Error (Some ''Failed to fetch news after multiple attempts'')), events))"
  by pat_completeness auto
termination
  by (relation "measure (\<lambda>(body, attempt, events). MAX_RETRIES - attempt)") auto

declare retryLoop.simps [simp del]

text \<open>
  \<open>fetchESGNews\<close>: the settled value of the returned promise (\<open>Inl\<close> a rejection,
  \<open>Inr\<close> the items) and the log of its effects. \<open>!apiKey\<close> holds for an undefined and
  for an empty key.
\<close>

definition fetchESGNews :: "service_env \<Rightarrow> string \<Rightarrow> date_string \<Rightarrow> date_string \<Rightarrow> GenerationMode
    \<Rightarrow> int \<Rightarrow> (js_error + NewsItem list) \<times> service_event list" where
  "fetchESGNews env tickr startDate endDate mode cnt =
     (if apiKey env = None \<or> apiKey env = Some []
      then (Inl (Error (Some ''API Key is missing. Please select a paid API key.'')), [])
      else retryLoop (tryBlock env tickr startDate endDate mode cnt) 0 [])"

text \<open>
  Notions used to state the retry policy. \<open>retriable body j\<close>: attempt \<open>j\<close> throws an
  error whose message does not contain "API Key". \<open>retryPrefix k\<close>: the effects of \<open>k\<close>
  failed attempts, each followed by its back-off delay.
\<close>

definition retriable :: "(nat \<Rightarrow> js_error + NewsItem list) \<Rightarrow> nat \<Rightarrow> bool" where
  "retriable body j =
     (case body j of Inl e \<Rightarrow> \<not> message_includes e ''API Key'' | Inr its \<Rightarrow> False)"

fun retryPrefix :: "nat \<Rightarrow> service_event list" where
  "retryPrefix 0 = []"
| "retryPrefix (Suc k) = retryPrefix k @ [GenerateContent k, Backoff (1000 * 2 ^ Suc k)]"

definition missingKeyError :: js_error where
  "missingKeyError = Error (Some ''API Key is missing. Please select a paid API key.'')"

section \<open>The application state and the batch scheduler (src/App.tsx)\<close>

text \<open>
  The state of one run of \<open>handleSequenceGenerate\<close>: the React state of \<open>App\<close>
  (\<open>newsData\<close>, \<open>isGenerating\<close>, \<open>progressStr\<close>, \<open>error\<close>), the ref \<open>stopRef\<close>,
  the local counters \<open>totalGenerated\<close> and \<open>errorCount\<close>, and two logs of the run's
  effects: \<open>trace\<close>, the fetch calls started and settled, in order, and \<open>pauses\<close>, the
  delays slept between batches.
\<close>

datatype event = FetchStart chunk | FetchSettled chunk

record state =
  newsData :: "NewsItem list"
  isGenerating :: bool
  progressStr :: string
  error :: "string option"
  stopRef :: bool
  totalGenerated :: nat
  errorCount :: nat
  trace :: "event list"
  pauses :: "nat list"

definition handleStop :: "state \<Rightarrow> state" where
  "handleStop s = s\<lparr>stopRef := True\<rparr>"

definition handleDelete :: "string \<Rightarrow> state \<Rightarrow> state" where
  "handleDelete ident s = s\<lparr>newsData := filter (\<lambda>item. id' item \<noteq> ident) (newsData s)\<rparr>"

text \<open>
  The outside world of a run. JavaScript runs \<open>handleSequenceGenerate\<close> on one thread,
  so other handlers run only while it is suspended at an \<open>await\<close>: at
  \<open>await Promise.all(promises)\<close> and at the pause between batches.
  \<^item> \<open>settles\<close>: the settled value of the promise that
    \<open>fetchESGNews(ticker, start, end, mode, count)\<close> returns (\<open>Inl\<close> a rejection);
  \<^item> \<open>resolvedAt\<close>: the time at which that promise settles;
  \<^item> \<open>stopDuringFetch n\<close>: \<open>handleStop\<close> runs while batch number \<open>n\<close> is awaited;
  \<^item> \<open>stopDuringPause n\<close>: \<open>handleStop\<close> runs during the pause after batch \<open>n\<close>;
  \<^item> \<open>aistudio\<close>: whether \<open>window.aistudio.openSelectKey\<close> exists, and if so whether
    the call resolves or throws.
  A run is taken on its own: no \<open>handleDelete\<close> and no second
  \<open>handleSequenceGenerate\<close> is interleaved with it. The result of a fetch is a
  function of the arguments of the call; the chunks of one plan differ in their start.
\<close>

datatype aistudio = NoSelector | SelectorResolves | SelectorThrows

record env =
  settles :: "string \<Rightarrow> date_string \<Rightarrow> date_string \<Rightarrow> GenerationMode \<Rightarrow> int
              \<Rightarrow> js_error + NewsItem list"
  resolvedAt :: "string \<Rightarrow> date_string \<Rightarrow> date_string \<Rightarrow> GenerationMode \<Rightarrow> int \<Rightarrow> nat"
  stopDuringFetch :: "nat \<Rightarrow> bool"
  stopDuringPause :: "nat \<Rightarrow> bool"
  aistudio :: aistudio

text \<open>
  Lines 79-83: each call is wrapped, so the promise handed to \<open>Promise.all\<close> always
  fulfils, with \<open>{success: true, items}\<close> or \<open>{success: false, err}\<close>.
\<close>

datatype wrapped = is_success: Success (items: "NewsItem list") | Failure (err: js_error)

definition wrappedFetch :: "env \<Rightarrow> string \<Rightarrow> GenerationMode \<Rightarrow> chunk \<Rightarrow> wrapped" where
  "wrappedFetch env tickr mode c =
     (case settles env tickr (start c) (end' c) mode (count c) of
        Inr its \<Rightarrow> Success its
      | Inl e \<Rightarrow> Failure e)"

definition resolveTime :: "env \<Rightarrow> string \<Rightarrow> GenerationMode \<Rightarrow> chunk \<Rightarrow> nat" where
  "resolveTime env tickr mode c = resolvedAt env tickr (start c) (end' c) mode (count c)"

text \<open>Decimal digits of a count, as a template literal prints it.\<close>

fun toString :: "nat \<Rightarrow> string" where
  "toString n =
     (if n < 10 then [''0123456789'' ! n]
      else toString (n div 10) @ [''0123456789'' ! (n mod 10)])"

declare toString.simps [simp del]

definition CONCURRENCY :: nat where
  "CONCURRENCY = 3"

definition batchMessage :: "nat \<Rightarrow> nat \<Rightarrow> nat \<Rightarrow> nat \<Rightarrow> nat \<Rightarrow> string" where
  "batchMessage batchIdx totalBatches batchLength generated errs =
     ''Batch '' @ toString batchIdx @ ''/'' @ toString totalBatches @ '': Crawling ''
       @ toString batchLength @ '' parallel segments... | Total: '' @ toString generated
       @ '' | Errors: '' @ toString errs"

definition stoppedMessage :: "nat \<Rightarrow> nat \<Rightarrow> string" where
  "stoppedMessage generated errs =
     ''Stopped by user. Total: '' @ toString generated @ ''. Errors: '' @ toString errs"

definition completedMessage :: "nat \<Rightarrow> nat \<Rightarrow> string" where
  "completedMessage generated errs =
     ''Sequence Completed! Total: '' @ toString generated @ ''. Errors: '' @ toString errs"

text \<open>
  Lines 79-85. \<open>batch.map\<close> starts the fetch of every chunk of the batch, in order;
  \<open>await Promise.all\<close> resumes once every promise has settled, which they do in the
  order of their resolve times. While the run is suspended \<open>handleStop\<close> may run. The
  array that \<open>Promise.all\<close> fulfils with has the promises' values in the order of the
  promises, whatever the order in which they settled.
\<close>

definition awaitAll :: "env \<Rightarrow> string \<Rightarrow> GenerationMode \<Rightarrow> nat \<Rightarrow> chunk list \<Rightarrow> state \<Rightarrow> state" where
  "awaitAll env tickr mode batchIdx batch s =
     s\<lparr>trace := trace s @ map FetchStart batch
                 @ map FetchSettled (sort_key (resolveTime env tickr mode) batch),
       stopRef := (stopRef s \<or> stopDuringFetch env batchIdx)\<rparr>"

definition promiseAll :: "env \<Rightarrow> string \<Rightarrow> GenerationMode \<Rightarrow> chunk list \<Rightarrow> wrapped list" where
  "promiseAll env tickr mode batch = map (wrappedFetch env tickr mode) batch"

text \<open>
  A run of a block either completes or throws; a throw keeps the state reached.
\<close>

datatype completion = Normal state | Throw js_error state

text \<open>Lines 88-100: the loop over the results of one batch.\<close>

fun processResults :: "wrapped list \<Rightarrow> state \<Rightarrow> completion" where
  "processResults [] s = Normal s"
| "processResults (Success its # results) s =
     processResults results
       (s\<lparr>newsData := newsData s @ its, totalGenerated := totalGenerated s + length its\<rparr>)"
| "processResults (Failure e # results) s =
     (let s' = s\<lparr>errorCount := errorCount s + 1\<rparr>
      in if message_includes e ''API Key'' then Throw e s'
         else processResults results s')"

text \<open>Lines 103-105: the pause, during which \<open>handleStop\<close> may run.\<close>

definition pause :: "env \<Rightarrow> nat \<Rightarrow> state \<Rightarrow> state" where
  "pause env batchIdx s =
     s\<lparr>pauses := pauses s @ [1000], stopRef := (stopRef s \<or> stopDuringPause env batchIdx)\<rparr>"

text \<open>
  Lines 72-105: the body of one iteration of the loop over the batches, for the batch
  that starts at index \<open>i\<close>.
\<close>

definition windowBody :: "env \<Rightarrow> string \<Rightarrow> GenerationMode \<Rightarrow> chunk list \<Rightarrow> nat \<Rightarrow> state \<Rightarrow> completion" where
  "windowBody env tickr mode chunks i s =
     (let batch = take CONCURRENCY (drop i chunks);
          batchIdx = i div CONCURRENCY + 1;
          totalBatches = nat \<lceil>real (length chunks) / real CONCURRENCY\<rceil>;
          s1 = s\<lparr>progressStr := batchMessage batchIdx totalBatches (length batch)
                                 (totalGenerated s) (errorCount s)\<rparr>;
          s2 = awaitAll env tickr mode batchIdx batch s1;
          results = promiseAll env tickr mode batch
      in case processResults results s2 of
           Throw e s3 \<Rightarrow> Throw e s3
         | Normal s3 \<Rightarrow>
             Normal (if i + CONCURRENCY < length chunks \<and> \<not> stopRef s3
                     then pause env batchIdx s3 else s3))"

text \<open>
  Lines 69-106: the loop over the batches, from index \<open>i\<close> on, with the check of
  \<open>stopRef\<close> at the head of each iteration.
\<close>

function batchLoop :: "env \<Rightarrow> string \<Rightarrow> GenerationMode \<Rightarrow> chunk list \<Rightarrow> nat \<Rightarrow> state \<Rightarrow> completion" where
  "batchLoop env tickr mode chunks i s =
     (if i < length chunks then
        (if stopRef s then Normal s
         else (case windowBody env tickr mode chunks i s of
                 Throw e s' \<Rightarrow> Throw e s'
               | Normal s' \<Rightarrow> batchLoop env tickr mode chunks (i + CONCURRENCY) s'))
      else Normal s)"
  by pat_completeness auto
termination
  by (relation "measure (\<lambda>(env, tickr, mode, chunks, i, s). length chunks - i)")
    (auto simp add: CONCURRENCY_def)

declare batchLoop.simps [simp del]

text \<open>Lines 114-128: the \<open>catch\<close> block.\<close>

definition catchBlock :: "env \<Rightarrow> js_error \<Rightarrow> state \<Rightarrow> state" where
  "catchBlock env e s =
     (if message_includes e ''API Key is missing'' then
        (case aistudio env of
           SelectorResolves \<Rightarrow> s\<lparr>error := Some ''API Key selected. Please try again.''\<rparr>
         | SelectorThrows \<Rightarrow> s\<lparr>error := Some ''Failed to open API Key selector.''\<rparr>
         | NoSelector \<Rightarrow> s\<lparr>error := Some ''API Key missing and selection dialog unavailable.''\<rparr>)
      else
        s\<lparr>error := Some (case message e of
                             None \<Rightarrow> ''An unexpected error occurred.''
                           | Some m \<Rightarrow> if m = [] then ''An unexpected error occurred.'' else m)\<rparr>)"

text \<open>
  Lines 108-132: what follows the loop. After a normal end the final progress message
  is set; a throw goes to the \<open>catch\<close> block; \<open>finally\<close> clears \<open>isGenerating\<close> and
  \<open>stopRef\<close>. The field \<open>stopRef\<close> of the loop's last state tells whether a stop was
  requested.
\<close>

definition afterLoop :: "env \<Rightarrow> completion \<Rightarrow> state" where
  "afterLoop env r =
     (let s' = (case r of
                  Normal s \<Rightarrow>
                    (if stopRef s
                     then s\<lparr>progressStr := stoppedMessage (totalGenerated s) (errorCount s)\<rparr>
                     else s\<lparr>progressStr := completedMessage (totalGenerated s) (errorCount s)\<rparr>)
                | Throw e s \<Rightarrow> catchBlock env e s)
      in s'\<lparr>isGenerating := False, stopRef := False\<rparr>)"

text \<open>Lines 27-32 and 66-132: a run over a chunk list already planned.\<close>

definition initRun :: "state \<Rightarrow> state" where
  "initRun a =
     a\<lparr>isGenerating := True, error := None, stopRef := False,
       totalGenerated := 0, errorCount := 0, trace := [], pauses := []\<rparr>"

definition runChunks :: "env \<Rightarrow> string \<Rightarrow> GenerationMode \<Rightarrow> chunk list \<Rightarrow> state \<Rightarrow> state" where
  "runChunks env tickr mode chunks a =
     afterLoop env (batchLoop env tickr mode chunks 0 (initRun a))"

definition handleSequenceGenerate :: "env \<Rightarrow> string \<Rightarrow> date_string \<Rightarrow> date_string \<Rightarrow> GenerationMode
    \<Rightarrow> real \<Rightarrow> state \<Rightarrow> state" where
  "handleSequenceGenerate env tickr startStr endStr mode itemsPerDay a =
     runChunks env tickr mode (plan startStr endStr itemsPerDay) a"

text \<open>Sample values for the examples below.\<close>

definition sampleItem :: "string \<Rightarrow> NewsItem" where
  "sampleItem ident =
     \<lparr>id' = ident, time = ''2024-01-01'', text' = ''Headline. Summary'',
      source = Some ''Synthetic Generation (Gemini 2.5)'', ticker = ''S&P 500 ESG Index''\<rparr>"

definition sampleState :: "NewsItem list \<Rightarrow> state" where
  "sampleState its =
     \<lparr>newsData = its, isGenerating = False, progressStr = [], error = None, stopRef = False,
      totalGenerated = 0, errorCount = 0, trace = [], pauses = []\<rparr>"

definition sampleItems :: "date_string \<Rightarrow> NewsItem list" where
  "sampleItems d = [sampleItem (''SYN-'' @ toString (nat d))]"

definition sixChunks :: "chunk list" where
  "sixChunks =
     [\<lparr>start = 0, end' = 17, count = 26\<rparr>, \<lparr>start = 17, end' = 34, count = 26\<rparr>,
      \<lparr>start = 34, end' = 51, count = 26\<rparr>, \<lparr>start = 51, end' = 68, count = 26\<rparr>,
      \<lparr>start = 68, end' = 85, count = 26\<rparr>, \<lparr>start = 85, end' = 100, count = 23\<rparr>]"

definition threeChunks :: "chunk list" where
  "threeChunks =
     [\<lparr>start = 0, end' = 17, count = 26\<rparr>, \<lparr>start = 17, end' = 34, count = 26\<rparr>,
      \<lparr>start = 34, end' = 51, count = 26\<rparr>]"

text \<open>
  In \<open>envOk\<close> every fetch succeeds with one item named after the start of its chunk, a
  later chunk resolves before an earlier one, and nobody presses stop. The other
  environments differ from it in one respect each.
\<close>

definition envOk :: env where
  "envOk =
     \<lparr>settles = (\<lambda>t s e m c. Inr (sampleItems s)),
      resolvedAt = (\<lambda>t s e m c. nat (100 - s)),
      stopDuringFetch = (\<lambda>n. False),
      stopDuringPause = (\<lambda>n. False),
      aistudio = NoSelector\<rparr>"

definition envTransient :: env where
  "envTransient =
     envOk\<lparr>settles := (\<lambda>t s e m c. if s = 17 then Inl (Error (Some ''503 overloaded''))
                                    else Inr (sampleItems s))\<rparr>"

definition envFatal :: env where
  "envFatal =
     envOk\<lparr>settles := (\<lambda>t s e m c. if s = 68 then Inl (Error (Some ''API Key not valid''))
                                    else Inr (sampleItems s))\<rparr>"

definition envStop :: env where
  "envStop = envOk\<lparr>stopDuringPause := (\<lambda>n. n = 1)\<rparr>"

definition serviceNoKey :: service_env where
  "serviceNoKey = \<lparr>apiKey = None, tryBlock = (\<lambda>t s e m c n. Inr [])\<rparr>"

definition serviceDown :: service_env where
  "serviceDown =
     \<lparr>apiKey = Some ''k'', tryBlock = (\<lambda>t s e m c n. Inl (Error (Some ''503 overloaded'')))\<rparr>"

definition serviceBadKey :: service_env where
  "serviceBadKey =
     \<lparr>apiKey = Some ''k'',
      tryBlock = (\<lambda>t s e m c n. if n = 0 then Inl (Error (Some ''503 overloaded''))
                                else Inl (Error (Some ''API Key not valid'')))\<rparr>"

definition serviceFlaky :: service_env where
  "serviceFlaky =
     \<lparr>apiKey = Some ''k'',
      tryBlock = (\<lambda>t s e m c n. if n < 2 then Inl (Error (Some ''503 overloaded''))
                                else Inr [sampleItem ''SYN-a''])\<rparr>"

text \<open>
  Notions used to state the claims about a run. \<open>atWindow env tickr mode chunks s0 k\<close>
  is the state in which the loop started in \<open>s0\<close> arrives at the head of its iteration
  number \<open>k\<close> (counted from 0, index \<open>k * CONCURRENCY\<close>), if it gets there: the
  iterations before it were entered and did not throw. \<open>stateOf\<close> is the state a block
  ends in, thrown or not. \<open>started es\<close> are the chunks whose fetch the events \<open>es\<close>
  start. \<open>inFlight es\<close> is the number of fetch
  calls started and not yet settled after the events \<open>es\<close>. \<open>windows cs\<close> cuts a chunk
  list into consecutive batches of \<open>CONCURRENCY\<close> chunks, the last one possibly shorter.
  \<open>windowEvents\<close> is what one batch adds to the trace. \<open>successItems\<close> are the items of
  the successful results of a list, in the list's order.
\<close>

fun atWindow :: "env \<Rightarrow> string \<Rightarrow> GenerationMode \<Rightarrow> chunk list \<Rightarrow> state \<Rightarrow> nat \<Rightarrow> state option" where
  "atWindow env tickr mode chunks s0 0 = Some s0"
| "atWindow env tickr mode chunks s0 (Suc k) =
     (case atWindow env tickr mode chunks s0 k of
        None \<Rightarrow> None
      | Some s \<Rightarrow>
          if k * CONCURRENCY < length chunks \<and> \<not> stopRef s
          then (case windowBody env tickr mode chunks (k * CONCURRENCY) s of
                  Normal s' \<Rightarrow> Some s'
                | Throw e s' \<Rightarrow> None)
          else None)"

fun stateOf :: "completion \<Rightarrow> state" where
  "stateOf (Normal s) = s"
| "stateOf (Throw e s) = s"

fun started :: "event list \<Rightarrow> chunk list" where
  "started [] = []"
| "started (FetchStart c # es) = c # started es"
| "started (FetchSettled c # es) = started es"

fun inFlight :: "event list \<Rightarrow> int" where
  "inFlight [] = 0"
| "inFlight (FetchStart c # es) = inFlight es + 1"
| "inFlight (FetchSettled c # es) = inFlight es - 1"

function windows :: "chunk list \<Rightarrow> chunk list list" where
  "windows cs = (if cs = [] then [] else take CONCURRENCY cs # windows (drop CONCURRENCY cs))"
  by pat_completeness auto
termination
  by (relation "measure length") (auto simp add: CONCURRENCY_def)

declare windows.simps [simp del]

definition windowEvents :: "env \<Rightarrow> string \<Rightarrow> GenerationMode \<Rightarrow> chunk list \<Rightarrow> event list" where
  "windowEvents env tickr mode batch =
     map FetchStart batch @ map FetchSettled (sort_key (resolveTime env tickr mode) batch)"

fun successItems :: "wrapped list \<Rightarrow> NewsItem list" where
  "successItems [] = []"
| "successItems (Success its # rs) = its @ successItems rs"
| "successItems (Failure e # rs) = successItems rs"

fun failures :: "wrapped list \<Rightarrow> nat" where
  "failures [] = 0"
| "failures (Success its # rs) = failures rs"
| "failures (Failure e # rs) = Suc (failures rs)"

definition isFatal :: "wrapped \<Rightarrow> bool" where
  "isFatal r = (case r of Success its \<Rightarrow> False | Failure e \<Rightarrow> message_includes e ''API Key'')"

text \<open>
  The reading of the specification's sentence on intra-window order, to compare with
  the code: the items of the successful chunks of a batch, taken in the order in which
  the fetches resolve.
\<close>

definition itemsInResolutionOrder :: "env \<Rightarrow> string \<Rightarrow> GenerationMode \<Rightarrow> chunk list \<Rightarrow> NewsItem list" where
  "itemsInResolutionOrder env tickr mode batch =
     successItems (promiseAll env tickr mode (sort_key (resolveTime env tickr mode) batch))"

section \<open>Properties of the chunk planner\<close>

lemma chunkDays_ge_5: "5 \<le> chunkDays itemsPerDay"
  by (simp add: chunkDays_def)

lemma planChunks_stop:
  "\<not> dc < df \<Longrightarrow> planChunks ipd (new_Date dc) (new_Date df) = []"
  by (subst planChunks.simps) (simp add: new_Date_def MS_PER_DAY_def)

lemma planChunks_step:
  assumes "dc < df"
  shows "planChunks ipd (new_Date dc) (new_Date df) =
     (let da = min df (dc + chunkDays ipd);
          cnt = \<lceil>real_of_int (da - dc) * ipd\<rceil>
      in (if cnt > 0 then [\<lparr>start = dc, end' = da, count = cnt\<rparr>] else [])
         @ planChunks ipd (new_Date da) (new_Date df))"
proof -
  let ?M = "86400000 :: int"
  let ?da = "min df (dc + chunkDays ipd)"
  have ae: "(if df * ?M < dc * ?M + chunkDays ipd * ?M then df * ?M
             else dc * ?M + chunkDays ipd * ?M) = ?da * ?M"
    by (simp add: min_def algebra_simps)
  have "?da * ?M - dc * ?M = (?da - dc) * ?M"
    by (simp add: algebra_simps)
  then have days: "real_of_int (?da * ?M - dc * ?M) / real_of_int ?M = real_of_int (?da - dc)"
    by simp
  have lt: "dc * ?M < df * ?M" using assms by simp
  show ?thesis
    apply (subst planChunks.simps)
    apply (simp only: new_Date_def MS_PER_DAY_def toISODate_def Let_def lt if_True ae days)
    apply simp
    done
qed




lemma planChunks_nonpos:
  assumes "ipd \<le> 0"
  shows "planChunks ipd (new_Date dc) (new_Date df) = []"
proof (induction "nat (df - dc)" arbitrary: dc rule: less_induct)
  case less
  show ?case
  proof (cases "dc < df")
    case False
    then show ?thesis by (simp add: planChunks_stop)
  next
    case True
    let ?da = "min df (dc + chunkDays ipd)"
    have da: "dc < ?da" "?da \<le> df"
      using True chunkDays_ge_5 [of ipd] by auto
    then have "real_of_int (?da - dc) * ipd \<le> 0"
      using assms by (simp add: mult_le_0_iff)
    then have cnt: "\<not> 0 < \<lceil>real_of_int (?da - dc) * ipd\<rceil>"
      by (simp only: zero_less_ceiling not_less)
    have "planChunks ipd (new_Date ?da) (new_Date df) = []"
      using da by (intro less.hyps) auto
    then show ?thesis
      using cnt by (simp add: planChunks_step [OF True] Let_def)
  qed
qed











text \<open>
  The example of the specification: 2024-01-01 is day 19723 and 2024-01-10 is day 19732;
  at one item per day the planner emits the single chunk of nine days.
\<close>

lemma plan_example: "plan 19723 19732 1 = [\<lparr>start = 19723, end' = 19732, count = 9\<rparr>]"
  by code_simp



text \<open>
  Claim C4, as the specification states it, fails: with a density of zero the count of
  every stride is \<open>ceil(days * 0) = 0\<close>, the guard \<open>count > 0\<close> drops the chunk, and a
  non-empty range yields no chunk at all.
\<close>

theorem plan_nonpositive_density_counterexample:
  "(0::int) < 10 \<and> (0::real) \<le> 0 \<and> \<not> 1 \<le> length (plan 0 10 0)"
  by code_simp

text \<open>
  Claim C4, amended. For every non-empty range and every density at most zero the
  planner terminates (it is a total function), sizes its strides from the clamped
  density 0.1, which gives strides of 60 days, and produces no chunk: the count of every
  stride is computed from the unclamped density, is at most zero, and is dropped.
\<close>

theorem plan_nonpositive_density:
  assumes "startStr < endStr" and "itemsPerDay \<le> 0"
  shows "chunkDays itemsPerDay = 60 \<and> plan startStr endStr itemsPerDay = []"
proof -
  have "max (1 / 10) itemsPerDay = 1 / 10"
    using assms(2) by simp
  then have "rawDays itemsPerDay = 250"
    by (simp add: rawDays_def TARGET_ITEMS_PER_REQ_def)
  then have "chunkDays itemsPerDay = 60"
    by (simp add: chunkDays_def)
  moreover have "plan startStr endStr itemsPerDay = []"
    unfolding plan_def using assms(2) by (rule planChunks_nonpos)
  ultimately show ?thesis by simp
qed

theorem plan_nonpositive_density_witness:
  "(0::int) < 10 \<and> (- 1::real) \<le> 0 \<and> chunkDays (- 1) = 60 \<and> plan 0 10 (- 1) = []"
  using plan_nonpositive_density [of 0 10 "- 1"] by simp

section \<open>Properties of the accumulator\<close>

text \<open>
  Claim C9. Removing an id twice in a row leaves the same state as removing it once,
  and removing an id that no item carries leaves the state as it is; \<open>handleDelete\<close>
  has no error result.
\<close>

theorem handleDelete_idempotent:
  "handleDelete ident (handleDelete ident s) = handleDelete ident s
   \<and> (ident \<notin> id' ` set (newsData s) \<longrightarrow> handleDelete ident s = s)"
proof
  show "handleDelete ident (handleDelete ident s) = handleDelete ident s"
    by (simp add: handleDelete_def)
next
  show "ident \<notin> id' ` set (newsData s) \<longrightarrow> handleDelete ident s = s"
  proof
    assume "ident \<notin> id' ` set (newsData s)"
    then have "filter (\<lambda>item. id' item \<noteq> ident) (newsData s) = newsData s"
      by (auto simp add: filter_id_conv)
    then show "handleDelete ident s = s"
      by (simp add: handleDelete_def)
  qed
qed

theorem handleDelete_idempotent_witness:
  "''SYN-zzz'' \<notin> id' ` set (newsData (sampleState [sampleItem ''SYN-a'', sampleItem ''SYN-b'']))
   \<and> handleDelete ''SYN-zzz'' (sampleState [sampleItem ''SYN-a'', sampleItem ''SYN-b''])
       = sampleState [sampleItem ''SYN-a'', sampleItem ''SYN-b'']
   \<and> handleDelete ''SYN-a'' (handleDelete ''SYN-a'' (sampleState [sampleItem ''SYN-a'', sampleItem ''SYN-b'']))
       = sampleState [sampleItem ''SYN-b'']"
proof -
  let ?s = "sampleState [sampleItem ''SYN-a'', sampleItem ''SYN-b'']"
  have absent: "''SYN-zzz'' \<notin> id' ` set (newsData ?s)"
    by (simp add: sampleState_def sampleItem_def)
  have once: "handleDelete ''SYN-a'' ?s = sampleState [sampleItem ''SYN-b'']"
    by (simp add: handleDelete_def sampleState_def sampleItem_def)
  show ?thesis
    using absent once handleDelete_idempotent [of "''SYN-zzz''" ?s]
      handleDelete_idempotent [of "''SYN-a''" ?s]
    by simp
qed

section \<open>Properties of the fetch service\<close>

lemma retryLoop_success:
  "attempt < MAX_RETRIES \<Longrightarrow> body attempt = Inr its \<Longrightarrow>
   retryLoop body attempt evs = (Inr its, evs @ [GenerateContent attempt])"
  by (subst retryLoop.simps) simp

lemma retryLoop_api_key:
  "attempt < MAX_RETRIES \<Longrightarrow> body attempt = Inl e \<Longrightarrow> message_includes e ''API Key'' \<Longrightarrow>
   retryLoop body attempt evs = (Inl e, evs @ [GenerateContent attempt])"
  by (subst retryLoop.simps) simp

lemma retryLoop_last:
  "Suc attempt = MAX_RETRIES \<Longrightarrow> body attempt = Inl e \<Longrightarrow>
   retryLoop body attempt evs = (Inl e, evs @ [GenerateContent attempt])"
  by (subst retryLoop.simps) (auto simp add: Let_def)

lemma retryLoop_retry:
  "Suc attempt < MAX_RETRIES \<Longrightarrow> retriable body attempt \<Longrightarrow>
   retryLoop body attempt evs =
     retryLoop body (Suc attempt) (evs @ [GenerateContent attempt, Backoff (1000 * 2 ^ Suc attempt)])"
  by (subst retryLoop.simps) (auto simp add: Let_def retriable_def split: sum.splits)

lemma retryLoop_prefix:
  "k < MAX_RETRIES \<Longrightarrow> \<forall>j<k. retriable body j \<Longrightarrow>
   retryLoop body 0 [] = retryLoop body k (retryPrefix k)"
proof (induction k)
  case 0
  then show ?case by simp
next
  case (Suc k)
  then have "retryLoop body 0 [] = retryLoop body k (retryPrefix k)" by simp
  also have "\<dots> = retryLoop body (Suc k) (retryPrefix (Suc k))"
    using Suc.prems by (simp add: retryLoop_retry)
  finally show ?case .
qed

lemma retryLoop_rejects_late:
  assumes "retryLoop body 0 [] = (Inl e, evs)" and "\<not> message_includes e ''API Key''"
  shows "evs = retryPrefix 2 @ [GenerateContent 2] \<and> body 2 = Inl e \<and> retriable body 0 \<and> retriable body 1"
proof -
  have M: "MAX_RETRIES = 3" by (simp add: MAX_RETRIES_def)
  show ?thesis
  proof (cases "retriable body 0")
    case False
    then show ?thesis
      using assms M
      by (cases "body 0") (auto simp add: retriable_def retryLoop_success retryLoop_api_key)
  next
    case r0: True
    show ?thesis
    proof (cases "retriable body 1")
      case False
      have "retryLoop body 0 [] = retryLoop body 1 (retryPrefix 1)"
        using r0 M retryLoop_prefix [of 1 body] by simp
      then show ?thesis
        using assms M False
        by (cases "body 1") (auto simp add: retriable_def retryLoop_success retryLoop_api_key)
    next
      case r1: True
      have "\<forall>j<2. retriable body j"
        using r0 r1 by (auto simp add: less_Suc_eq numeral_2_eq_2)
      then have "retryLoop body 0 [] = retryLoop body 2 (retryPrefix 2)"
        using M retryLoop_prefix [of 2 body] by simp
      then show ?thesis
        using assms M r0 r1
        by (cases "body 2") (auto simp add: retryLoop_success retryLoop_last)
    qed
  qed
qed


text \<open>
  Claim C10. Without an API key (undefined or empty) \<open>fetchESGNews\<close> rejects at once
  with the missing-key error, whose message contains "API Key", and makes no request.
  With a key: an error whose message contains "API Key", at whichever attempt \<open>k\<close> it
  occurs, is thrown at once, request \<open>k\<close> being the last effect; a success at attempt
  \<open>k\<close> is returned; any other error is followed by a back-off delay of
  \<open>1000 * 2 ^ attempt\<close> ms and a new attempt, up to three attempts in all, and the error
  of the third attempt is thrown; and an error without "API Key" reaches the caller only
  after three failed attempts.
\<close>

theorem fetchESGNews_retry_policy:
  "(apiKey env = None \<or> apiKey env = Some [] \<longrightarrow>
      fetchESGNews env tickr startDate endDate mode cnt = (Inl missingKeyError, [])
      \<and> message_includes missingKeyError ''API Key'')
   \<and> (apiKey env \<noteq> None \<and> apiKey env \<noteq> Some [] \<longrightarrow>
       (let body = tryBlock env tickr startDate endDate mode cnt;
            r = fetchESGNews env tickr startDate endDate mode cnt
        in (\<forall>k e. k < MAX_RETRIES \<and> (\<forall>j<k. retriable body j) \<and> body k = Inl e
                  \<and> message_includes e ''API Key''
              \<longrightarrow> r = (Inl e, retryPrefix k @ [GenerateContent k]))
         \<and> (\<forall>k its. k < MAX_RETRIES \<and> (\<forall>j<k. retriable body j) \<and> body k = Inr its
              \<longrightarrow> r = (Inr its, retryPrefix k @ [GenerateContent k]))
         \<and> (\<forall>e. retriable body 0 \<and> retriable body 1 \<and> body 2 = Inl e
              \<longrightarrow> r = (Inl e, [GenerateContent 0, Backoff 2000, GenerateContent 1, Backoff 4000,
                              GenerateContent 2]))
         \<and> (\<forall>e evs. r = (Inl e, evs) \<and> \<not> message_includes e ''API Key''
              \<longrightarrow> retriable body 0 \<and> retriable body 1 \<and> body 2 = Inl e
                  \<and> evs = [GenerateContent 0, Backoff 2000, GenerateContent 1, Backoff 4000,
                           GenerateContent 2])))"
proof (intro conjI impI)
  assume "apiKey env = None \<or> apiKey env = Some []"
  then show "fetchESGNews env tickr startDate endDate mode cnt = (Inl missingKeyError, [])"
    by (auto simp add: fetchESGNews_def missingKeyError_def)
next
  show "message_includes missingKeyError ''API Key''"
    by (simp add: missingKeyError_def message_includes_def)
next
  assume key: "apiKey env \<noteq> None \<and> apiKey env \<noteq> Some []"
  define body where "body = tryBlock env tickr startDate endDate mode cnt"
  have r: "fetchESGNews env tickr startDate endDate mode cnt = retryLoop body 0 []"
    using key by (auto simp add: fetchESGNews_def body_def)
  have p2: "retryPrefix 2 @ [GenerateContent 2] =
      [GenerateContent 0, Backoff 2000, GenerateContent 1, Backoff 4000, GenerateContent 2]"
    by (simp add: numeral_2_eq_2)
  have a: "\<forall>k e. k < MAX_RETRIES \<and> (\<forall>j<k. retriable body j) \<and> body k = Inl e
                  \<and> message_includes e ''API Key''
              \<longrightarrow> retryLoop body 0 [] = (Inl e, retryPrefix k @ [GenerateContent k])"
    by (auto simp add: retryLoop_prefix retryLoop_api_key)
  have b: "\<forall>k its. k < MAX_RETRIES \<and> (\<forall>j<k. retriable body j) \<and> body k = Inr its
              \<longrightarrow> retryLoop body 0 [] = (Inr its, retryPrefix k @ [GenerateContent k])"
    by (auto simp add: retryLoop_prefix retryLoop_success)
  have c: "\<forall>e. retriable body 0 \<and> retriable body 1 \<and> body 2 = Inl e
              \<longrightarrow> retryLoop body 0 [] = (Inl e, retryPrefix 2 @ [GenerateContent 2])"
  proof (intro allI impI)
    fix e assume h: "retriable body 0 \<and> retriable body 1 \<and> body 2 = Inl e"
    then have "\<forall>j<2. retriable body j"
      by (auto simp add: less_Suc_eq numeral_2_eq_2)
    then have "retryLoop body 0 [] = retryLoop body 2 (retryPrefix 2)"
      using retryLoop_prefix [of 2 body] by (simp add: MAX_RETRIES_def)
    then show "retryLoop body 0 [] = (Inl e, retryPrefix 2 @ [GenerateContent 2])"
      using h by (simp add: retryLoop_last MAX_RETRIES_def)
  qed
  have d: "\<forall>e evs. retryLoop body 0 [] = (Inl e, evs) \<and> \<not> message_includes e ''API Key''
              \<longrightarrow> retriable body 0 \<and> retriable body 1 \<and> body 2 = Inl e
                  \<and> evs = retryPrefix 2 @ [GenerateContent 2]"
    using retryLoop_rejects_late [of body] by blast
  show "let body = tryBlock env tickr startDate endDate mode cnt;
            r = fetchESGNews env tickr startDate endDate mode cnt
        in (\<forall>k e. k < MAX_RETRIES \<and> (\<forall>j<k. retriable body j) \<and> body k = Inl e
                  \<and> message_includes e ''API Key''
              \<longrightarrow> r = (Inl e, retryPrefix k @ [GenerateContent k]))
         \<and> (\<forall>k its. k < MAX_RETRIES \<and> (\<forall>j<k. retriable body j) \<and> body k = Inr its
              \<longrightarrow> r = (Inr its, retryPrefix k @ [GenerateContent k]))
         \<and> (\<forall>e. retriable body 0 \<and> retriable body 1 \<and> body 2 = Inl e
              \<longrightarrow> r = (Inl e, [GenerateContent 0, Backoff 2000, GenerateContent 1, Backoff 4000,
                              GenerateContent 2]))
         \<and> (\<forall>e evs. r = (Inl e, evs) \<and> \<not> message_includes e ''API Key''
              \<longrightarrow> retriable body 0 \<and> retriable body 1 \<and> body 2 = Inl e
                  \<and> evs = [GenerateContent 0, Backoff 2000, GenerateContent 1, Backoff 4000,
                           GenerateContent 2])"
    unfolding Let_def body_def [symmetric] r
    using a b c d unfolding p2 by blast
qed


theorem fetchESGNews_retry_policy_witness:
  "fetchESGNews serviceNoKey ''SPX'' 0 5 SYNTHETIC 5 = (Inl missingKeyError, [])
   \<and> fetchESGNews serviceBadKey ''SPX'' 0 5 SYNTHETIC 5
       = (Inl (Error (Some ''API Key not valid'')),
          [GenerateContent 0, Backoff 2000, GenerateContent 1])
   \<and> fetchESGNews serviceFlaky ''SPX'' 0 5 SYNTHETIC 5
       = (Inr [sampleItem ''SYN-a''],
          [GenerateContent 0, Backoff 2000, GenerateContent 1, Backoff 4000, GenerateContent 2])
   \<and> fetchESGNews serviceDown ''SPX'' 0 5 SYNTHETIC 5
       = (Inl (Error (Some ''503 overloaded'')),
          [GenerateContent 0, Backoff 2000, GenerateContent 1, Backoff 4000, GenerateContent 2])"
proof -
  have transient: "\<not> message_includes (Error (Some ''503 overloaded'')) ''API Key''"
    by (simp add: message_includes_def)
  have fatal: "message_includes (Error (Some ''API Key not valid'')) ''API Key''"
    by (simp add: message_includes_def)
  have one: "\<And>P. (\<forall>j<(1::nat). P j) = P 0"
    by simp
  have two: "\<And>P. (\<forall>j<(2::nat). P j) = (P 0 \<and> P 1)"
    by (auto simp add: less_Suc_eq numeral_2_eq_2)
  have a: "fetchESGNews serviceNoKey ''SPX'' 0 5 SYNTHETIC 5 = (Inl missingKeyError, [])"
    using fetchESGNews_retry_policy [of serviceNoKey "''SPX''" 0 5 SYNTHETIC 5]
    by (simp add: serviceNoKey_def)
  have b: "fetchESGNews serviceBadKey ''SPX'' 0 5 SYNTHETIC 5
       = (Inl (Error (Some ''API Key not valid'')),
          [GenerateContent 0, Backoff 2000, GenerateContent 1])"
  proof -
    have "1 < MAX_RETRIES \<and> (\<forall>j<1. retriable (tryBlock serviceBadKey ''SPX'' 0 5 SYNTHETIC 5) j)
        \<and> tryBlock serviceBadKey ''SPX'' 0 5 SYNTHETIC 5 1 = Inl (Error (Some ''API Key not valid''))
        \<and> message_includes (Error (Some ''API Key not valid'')) ''API Key''"
      using transient fatal by (simp add: one serviceBadKey_def retriable_def MAX_RETRIES_def)
    moreover have "apiKey serviceBadKey \<noteq> None \<and> apiKey serviceBadKey \<noteq> Some []"
      by (simp add: serviceBadKey_def)
    ultimately have "fetchESGNews serviceBadKey ''SPX'' 0 5 SYNTHETIC 5
        = (Inl (Error (Some ''API Key not valid'')), retryPrefix 1 @ [GenerateContent 1])"
      using fetchESGNews_retry_policy [of serviceBadKey "''SPX''" 0 5 SYNTHETIC 5]
      unfolding Let_def by blast
    then show ?thesis by simp
  qed
  have c: "fetchESGNews serviceFlaky ''SPX'' 0 5 SYNTHETIC 5
       = (Inr [sampleItem ''SYN-a''],
          [GenerateContent 0, Backoff 2000, GenerateContent 1, Backoff 4000, GenerateContent 2])"
  proof -
    have "2 < MAX_RETRIES \<and> (\<forall>j<2. retriable (tryBlock serviceFlaky ''SPX'' 0 5 SYNTHETIC 5) j)
        \<and> tryBlock serviceFlaky ''SPX'' 0 5 SYNTHETIC 5 2 = Inr [sampleItem ''SYN-a'']"
      using transient by (simp add: two serviceFlaky_def retriable_def MAX_RETRIES_def)
    moreover have "apiKey serviceFlaky \<noteq> None \<and> apiKey serviceFlaky \<noteq> Some []"
      by (simp add: serviceFlaky_def)
    ultimately have "fetchESGNews serviceFlaky ''SPX'' 0 5 SYNTHETIC 5
        = (Inr [sampleItem ''SYN-a''], retryPrefix 2 @ [GenerateContent 2])"
      using fetchESGNews_retry_policy [of serviceFlaky "''SPX''" 0 5 SYNTHETIC 5]
      unfolding Let_def by blast
    then show ?thesis by (simp add: numeral_2_eq_2)
  qed
  have d: "fetchESGNews serviceDown ''SPX'' 0 5 SYNTHETIC 5
       = (Inl (Error (Some ''503 overloaded'')),
          [GenerateContent 0, Backoff 2000, GenerateContent 1, Backoff 4000, GenerateContent 2])"
  proof -
    have "retriable (tryBlock serviceDown ''SPX'' 0 5 SYNTHETIC 5) 0
        \<and> retriable (tryBlock serviceDown ''SPX'' 0 5 SYNTHETIC 5) 1
        \<and> tryBlock serviceDown ''SPX'' 0 5 SYNTHETIC 5 2 = Inl (Error (Some ''503 overloaded''))"
      using transient by (simp add: serviceDown_def retriable_def)
    moreover have "apiKey serviceDown \<noteq> None \<and> apiKey serviceDown \<noteq> Some []"
      by (simp add: serviceDown_def)
    ultimately show ?thesis
      using fetchESGNews_retry_policy [of serviceDown "''SPX''" 0 5 SYNTHETIC 5]
      unfolding Let_def by blast
  qed
  show ?thesis using a b c d by simp
qed

section \<open>Properties of the batch scheduler\<close>

subsection \<open>The results of one batch\<close>

lemma successItems_append: "successItems (xs @ ys) = successItems xs @ successItems ys"
  by (induction xs rule: successItems.induct) auto

lemma failures_append: "failures (xs @ ys) = failures xs + failures ys"
  by (induction xs rule: failures.induct) auto

lemma processResults_Normal:
  "\<not> list_ex isFatal rs \<Longrightarrow>
   processResults rs s =
     Normal (s\<lparr>newsData := newsData s @ successItems rs,
               totalGenerated := totalGenerated s + length (successItems rs),
               errorCount := errorCount s + failures rs\<rparr>)"
proof (induction rs arbitrary: s)
  case Nil
  then show ?case by simp
next
  case (Cons r rs)
  then show ?case by (cases r) (auto simp add: isFatal_def Let_def)
qed

lemma processResults_Throw:
  "\<not> list_ex isFatal pre \<Longrightarrow> message_includes e ''API Key'' \<Longrightarrow>
   processResults (pre @ Failure e # post) s =
     Throw e (s\<lparr>newsData := newsData s @ successItems pre,
                 totalGenerated := totalGenerated s + length (successItems pre),
                 errorCount := errorCount s + failures pre + 1\<rparr>)"
proof (induction pre arbitrary: s)
  case Nil
  then show ?case by simp
next
  case (Cons r pre)
  then show ?case by (cases r) (auto simp add: isFatal_def Let_def)
qed

lemma fatal_split:
  assumes "list_ex isFatal rs"
  shows "\<exists>pre e post. rs = pre @ Failure e # post \<and> \<not> list_ex isFatal pre
           \<and> message_includes e ''API Key''"
proof -
  from assms obtain pre r post where
    rs: "rs = pre @ r # post" and r: "isFatal r" and pre: "\<forall>x \<in> set pre. \<not> isFatal x"
    unfolding list_ex_iff by (metis split_list_first_prop)
  from r obtain e where "r = Failure e" "message_includes e ''API Key''"
    by (cases r) (auto simp add: isFatal_def)
  with rs pre show ?thesis
    by (auto simp add: list_ex_iff)
qed

lemma windowBody_Normal:
  assumes "\<not> list_ex isFatal (promiseAll env tickr mode (take CONCURRENCY (drop i chunks)))"
  shows "\<exists>s'. windowBody env tickr mode chunks i s = Normal s'
     \<and> newsData s' = newsData s @ successItems (promiseAll env tickr mode (take CONCURRENCY (drop i chunks)))
     \<and> totalGenerated s' = totalGenerated s
          + length (successItems (promiseAll env tickr mode (take CONCURRENCY (drop i chunks))))
     \<and> errorCount s' = errorCount s + failures (promiseAll env tickr mode (take CONCURRENCY (drop i chunks)))
     \<and> trace s' = trace s @ windowEvents env tickr mode (take CONCURRENCY (drop i chunks))
     \<and> error s' = error s \<and> isGenerating s' = isGenerating s
     \<and> stopRef s' = (stopRef s \<or> stopDuringFetch env (i div CONCURRENCY + 1)
          \<or> (i + CONCURRENCY < length chunks \<and> stopDuringPause env (i div CONCURRENCY + 1)))
     \<and> pauses s' = pauses s @
          (if i + CONCURRENCY < length chunks
              \<and> \<not> (stopRef s \<or> stopDuringFetch env (i div CONCURRENCY + 1))
           then [1000] else [])
     \<and> progressStr s' = batchMessage (i div CONCURRENCY + 1)
            (nat \<lceil>real (length chunks) / real CONCURRENCY\<rceil>)
            (length (take CONCURRENCY (drop i chunks))) (totalGenerated s) (errorCount s)"
  unfolding windowBody_def Let_def processResults_Normal [OF assms]
  by (auto simp add: awaitAll_def pause_def windowEvents_def)

lemma windowBody_Throw:
  assumes "promiseAll env tickr mode (take CONCURRENCY (drop i chunks)) = pre @ Failure e # post"
    and "\<not> list_ex isFatal pre" and "message_includes e ''API Key''"
  shows "\<exists>s'. windowBody env tickr mode chunks i s = Throw e s'
     \<and> newsData s' = newsData s @ successItems pre
     \<and> totalGenerated s' = totalGenerated s + length (successItems pre)
     \<and> errorCount s' = errorCount s + failures pre + 1
     \<and> trace s' = trace s @ windowEvents env tickr mode (take CONCURRENCY (drop i chunks))
     \<and> error s' = error s \<and> isGenerating s' = isGenerating s
     \<and> pauses s' = pauses s
     \<and> progressStr s' = batchMessage (i div CONCURRENCY + 1)
            (nat \<lceil>real (length chunks) / real CONCURRENCY\<rceil>)
            (length (take CONCURRENCY (drop i chunks))) (totalGenerated s) (errorCount s)"
  unfolding windowBody_def Let_def assms(1) processResults_Throw [OF assms(2,3)]
  by (simp add: awaitAll_def pause_def windowEvents_def)


subsection \<open>Windows and the states at their heads\<close>

lemma promiseAll_append:
  "promiseAll env tickr mode (xs @ ys) = promiseAll env tickr mode xs @ promiseAll env tickr mode ys"
  by (simp add: promiseAll_def)

lemma take_next_window:
  "take (Suc k * CONCURRENCY) cs = take (k * CONCURRENCY) cs @ take CONCURRENCY (drop (k * CONCURRENCY) cs)"
  by (simp add: take_add [symmetric] add.commute)

lemma windows_Cons: "cs \<noteq> [] \<Longrightarrow> windows cs = take CONCURRENCY cs # windows (drop CONCURRENCY cs)"
  by (subst windows.simps) simp

lemma windows_Nil: "windows [] = []"
  by (subst windows.simps) simp

lemma windows_nth:
  "k * CONCURRENCY < length cs \<Longrightarrow>
   k < length (windows cs) \<and> windows cs ! k = take CONCURRENCY (drop (k * CONCURRENCY) cs)"
proof (induction k arbitrary: cs)
  case 0
  then have "cs \<noteq> []" by auto
  then show ?case by (simp add: windows_Cons)
next
  case (Suc k)
  then have ne: "cs \<noteq> []" by auto
  have "k * CONCURRENCY < length (drop CONCURRENCY cs)"
    using Suc.prems by simp
  then have "k < length (windows (drop CONCURRENCY cs))
      \<and> windows (drop CONCURRENCY cs) ! k
          = take CONCURRENCY (drop (k * CONCURRENCY) (drop CONCURRENCY cs))"
    by (rule Suc.IH)
  then show ?case
    by (simp add: windows_Cons [OF ne] add.commute)
qed

lemma windows_concat: "concat (windows cs) = cs"
proof (induction cs rule: windows.induct)
  case (1 cs)
  show ?case
  proof (cases "cs = []")
    case True
    then show ?thesis by (simp add: windows_Nil)
  next
    case False
    with 1 show ?thesis by (simp add: windows_Cons)
  qed
qed

lemma windows_sizes: "w \<in> set (windows cs) \<Longrightarrow> w \<noteq> [] \<and> length w \<le> CONCURRENCY"
proof (induction cs rule: windows.induct)
  case (1 cs)
  show ?case
  proof (cases "cs = []")
    case True
    with 1 show ?thesis by (simp add: windows_Nil)
  next
    case False
    with 1 show ?thesis by (auto simp add: windows_Cons CONCURRENCY_def)
  qed
qed

lemma take_windows_Suc:
  "k * CONCURRENCY < length cs \<Longrightarrow>
   take (Suc k) (windows cs) = take k (windows cs) @ [take CONCURRENCY (drop (k * CONCURRENCY) cs)]"
  using windows_nth [of k cs] by (simp add: take_Suc_conv_app_nth)

lemma atWindow_Suc_elim:
  assumes "atWindow env tickr mode chunks s0 (Suc k) = Some s'"
  shows "\<exists>s. atWindow env tickr mode chunks s0 k = Some s \<and> k * CONCURRENCY < length chunks
     \<and> \<not> stopRef s \<and> windowBody env tickr mode chunks (k * CONCURRENCY) s = Normal s'"
  using assms by (auto split: option.splits if_splits completion.splits)

lemma windowBody_Normal_no_fatal:
  assumes "windowBody env tickr mode chunks i s = Normal s'"
  shows "\<not> list_ex isFatal (promiseAll env tickr mode (take CONCURRENCY (drop i chunks)))"
proof
  assume "list_ex isFatal (promiseAll env tickr mode (take CONCURRENCY (drop i chunks)))"
  then obtain pre e post where
    "promiseAll env tickr mode (take CONCURRENCY (drop i chunks)) = pre @ Failure e # post"
    "\<not> list_ex isFatal pre" "message_includes e ''API Key''"
    using fatal_split by blast
  then have "\<exists>s'. windowBody env tickr mode chunks i s = Throw e s'"
    using windowBody_Throw [of env tickr mode i chunks pre e post s] by blast
  with assms show False by auto
qed

lemma atWindow_closed:
  "atWindow env tickr mode chunks s0 k = Some s \<Longrightarrow>
     newsData s = newsData s0 @ successItems (promiseAll env tickr mode (take (k * CONCURRENCY) chunks))
   \<and> totalGenerated s = totalGenerated s0
        + length (successItems (promiseAll env tickr mode (take (k * CONCURRENCY) chunks)))
   \<and> errorCount s = errorCount s0 + failures (promiseAll env tickr mode (take (k * CONCURRENCY) chunks))
   \<and> trace s = trace s0 @ concat (map (windowEvents env tickr mode) (take k (windows chunks)))
   \<and> error s = error s0 \<and> isGenerating s = isGenerating s0
   \<and> \<not> list_ex isFatal (promiseAll env tickr mode (take (k * CONCURRENCY) chunks))
   \<and> k \<le> length (windows chunks)"
proof (induction k arbitrary: s)
  case 0
  then show ?case by (simp add: promiseAll_def)
next
  case (Suc k)
  let ?b = "take CONCURRENCY (drop (k * CONCURRENCY) chunks)"
  from Suc.prems obtain s1 where
    s1: "atWindow env tickr mode chunks s0 k = Some s1" and lt: "k * CONCURRENCY < length chunks"
    and body: "windowBody env tickr mode chunks (k * CONCURRENCY) s1 = Normal s"
    using atWindow_Suc_elim by blast
  note ih = Suc.IH [OF s1]
  have nf: "\<not> list_ex isFatal (promiseAll env tickr mode ?b)"
    using body by (rule windowBody_Normal_no_fatal)
  from windowBody_Normal [OF nf, of s1] body
  have step: "newsData s = newsData s1 @ successItems (promiseAll env tickr mode ?b)"
    "totalGenerated s = totalGenerated s1 + length (successItems (promiseAll env tickr mode ?b))"
    "errorCount s = errorCount s1 + failures (promiseAll env tickr mode ?b)"
    "trace s = trace s1 @ windowEvents env tickr mode ?b"
    "error s = error s1" "isGenerating s = isGenerating s1"
    by auto
  have split: "promiseAll env tickr mode (take (Suc k * CONCURRENCY) chunks)
      = promiseAll env tickr mode (take (k * CONCURRENCY) chunks) @ promiseAll env tickr mode ?b"
    by (simp only: take_next_window promiseAll_append)
  have len: "Suc k \<le> length (windows chunks)"
    using windows_nth [OF lt] by simp
  show ?case
    unfolding split take_windows_Suc [OF lt]
    using ih step nf len
    by (simp add: successItems_append failures_append)
qed

lemma batchLoop_atWindow:
  "atWindow env tickr mode chunks s0 k = Some s \<Longrightarrow>
   batchLoop env tickr mode chunks 0 s0 = batchLoop env tickr mode chunks (k * CONCURRENCY) s"
proof (induction k arbitrary: s)
  case 0
  then show ?case by simp
next
  case (Suc k)
  from Suc.prems obtain s1 where
    s1: "atWindow env tickr mode chunks s0 k = Some s1" and lt: "k * CONCURRENCY < length chunks"
    and ns: "\<not> stopRef s1"
    and body: "windowBody env tickr mode chunks (k * CONCURRENCY) s1 = Normal s"
    using atWindow_Suc_elim by blast
  have "batchLoop env tickr mode chunks 0 s0 = batchLoop env tickr mode chunks (k * CONCURRENCY) s1"
    by (rule Suc.IH [OF s1])
  also have "\<dots> = batchLoop env tickr mode chunks (k * CONCURRENCY + CONCURRENCY) s"
    using lt ns body by (subst batchLoop.simps) simp
  finally show ?case by (simp add: add.commute)
qed

lemma batchLoop_ends:
  "atWindow env tickr mode chunks s0 k = Some s \<Longrightarrow>
   \<exists>k' s'. atWindow env tickr mode chunks s0 k' = Some s'
     \<and> ((batchLoop env tickr mode chunks (k * CONCURRENCY) s = Normal s'
          \<and> (length chunks \<le> k' * CONCURRENCY \<or> stopRef s'))
        \<or> (k' * CONCURRENCY < length chunks \<and> \<not> stopRef s'
          \<and> (\<exists>e s''. windowBody env tickr mode chunks (k' * CONCURRENCY) s' = Throw e s''
                \<and> batchLoop env tickr mode chunks (k * CONCURRENCY) s = Throw e s'')))"
proof (induction "length chunks - k * CONCURRENCY" arbitrary: k s rule: less_induct)
  case less
  show ?case
  proof (cases "k * CONCURRENCY < length chunks \<and> \<not> stopRef s")
    case False
    then have "batchLoop env tickr mode chunks (k * CONCURRENCY) s = Normal s"
      by (subst batchLoop.simps) auto
    with False less.prems show ?thesis by (intro exI [of _ k] exI [of _ s]) auto
  next
    case True
    show ?thesis
    proof (cases "windowBody env tickr mode chunks (k * CONCURRENCY) s")
      case (Throw e s'')
      then have "batchLoop env tickr mode chunks (k * CONCURRENCY) s = Throw e s''"
        using True by (subst batchLoop.simps) simp
      with True Throw less.prems show ?thesis by (intro exI [of _ k] exI [of _ s]) auto
    next
      case (Normal s1)
      then have next_at: "atWindow env tickr mode chunks s0 (Suc k) = Some s1"
        using True less.prems by simp
      have step: "batchLoop env tickr mode chunks (k * CONCURRENCY) s
          = batchLoop env tickr mode chunks (Suc k * CONCURRENCY) s1"
        using True Normal by (subst batchLoop.simps) (simp add: add.commute)
      have "length chunks - Suc k * CONCURRENCY < length chunks - k * CONCURRENCY"
        using True by (auto simp add: CONCURRENCY_def)
      from less.hyps [OF this next_at] show ?thesis
        unfolding step .
    qed
  qed
qed

lemma windowBody_Throw_elim:
  assumes "windowBody env tickr mode chunks i s = Throw e s'"
  shows "\<exists>pre post.
       promiseAll env tickr mode (take CONCURRENCY (drop i chunks)) = pre @ Failure e # post
     \<and> \<not> list_ex isFatal pre \<and> message_includes e ''API Key''
     \<and> newsData s' = newsData s @ successItems pre
     \<and> totalGenerated s' = totalGenerated s + length (successItems pre)
     \<and> errorCount s' = errorCount s + failures pre + 1
     \<and> trace s' = trace s @ windowEvents env tickr mode (take CONCURRENCY (drop i chunks))
     \<and> progressStr s' = batchMessage (i div CONCURRENCY + 1)
            (nat \<lceil>real (length chunks) / real CONCURRENCY\<rceil>)
            (length (take CONCURRENCY (drop i chunks))) (totalGenerated s) (errorCount s)"
proof -
  let ?rs = "promiseAll env tickr mode (take CONCURRENCY (drop i chunks))"
  have "list_ex isFatal ?rs"
  proof (rule ccontr)
    assume "\<not> list_ex isFatal ?rs"
    from windowBody_Normal [OF this, of s] assms show False by auto
  qed
  then obtain pre e' post where
    rs: "?rs = pre @ Failure e' # post" and pre: "\<not> list_ex isFatal pre"
    and e': "message_includes e' ''API Key''"
    using fatal_split by blast
  from windowBody_Throw [OF rs pre e', of s] assms
  have "e' = e" by auto
  with windowBody_Throw [OF rs pre e', of s] assms rs pre e'
  show ?thesis by (intro exI [of _ pre] exI [of _ post]) auto
qed

lemma run_ends:
  "\<exists>k sk. atWindow env tickr mode chunks (initRun a) k = Some sk
     \<and> ((batchLoop env tickr mode chunks 0 (initRun a) = Normal sk
          \<and> (length chunks \<le> k * CONCURRENCY \<or> stopRef sk))
        \<or> (k * CONCURRENCY < length chunks \<and> \<not> stopRef sk
          \<and> (\<exists>e s'. windowBody env tickr mode chunks (k * CONCURRENCY) sk = Throw e s'
                \<and> batchLoop env tickr mode chunks 0 (initRun a) = Throw e s')))"
  using batchLoop_ends [of env tickr mode chunks "initRun a" 0 "initRun a"] by simp

subsection \<open>The run as a whole\<close>

lemma successes_and_failures: "length (filter is_success rs) + failures rs = length rs"
  by (induction rs rule: failures.induct) auto

lemma length_successItems:
  "length (successItems rs) = sum_list (map (length \<circ> items) (filter is_success rs))"
  by (induction rs rule: successItems.induct) auto

lemma afterLoop_Normal:
  "afterLoop env (Normal s) =
     s\<lparr>progressStr := (if stopRef s then stoppedMessage (totalGenerated s) (errorCount s)
                        else completedMessage (totalGenerated s) (errorCount s)),
       isGenerating := False, stopRef := False\<rparr>"
  by (simp add: afterLoop_def)

lemma afterLoop_Throw:
  "afterLoop env (Throw e s) = (catchBlock env e s)\<lparr>isGenerating := False, stopRef := False\<rparr>"
  by (simp add: afterLoop_def)

lemma catchBlock_fields:
  "newsData (catchBlock env e s) = newsData s \<and> trace (catchBlock env e s) = trace s
   \<and> totalGenerated (catchBlock env e s) = totalGenerated s
   \<and> errorCount (catchBlock env e s) = errorCount s
   \<and> progressStr (catchBlock env e s) = progressStr s
   \<and> pauses (catchBlock env e s) = pauses s
   \<and> error (catchBlock env e s) \<noteq> None
   \<and> error (catchBlock env e s) = error (catchBlock env e s')"
  by (simp add: catchBlock_def split: aistudio.splits)

lemma catchBlock_message:
  "message_includes e ''API Key'' \<Longrightarrow> \<not> message_includes e ''API Key is missing'' \<Longrightarrow>
   error (catchBlock env e s) = message e"
  by (auto simp add: catchBlock_def message_includes_def split: option.splits)

lemma initRun_fields:
  "newsData (initRun a) = newsData a \<and> totalGenerated (initRun a) = 0 \<and> errorCount (initRun a) = 0
   \<and> trace (initRun a) = [] \<and> pauses (initRun a) = [] \<and> error (initRun a) = None
   \<and> \<not> stopRef (initRun a) \<and> isGenerating (initRun a)"
  by (simp add: initRun_def)

lemma started_append: "started (xs @ ys) = started xs @ started ys"
  by (induction xs rule: started.induct) auto

lemma started_starts: "started (map FetchStart cs) = cs"
  by (induction cs) auto

lemma started_settles: "started (map FetchSettled cs) = []"
  by (induction cs) auto

lemma started_windowEvents: "started (windowEvents env tickr mode batch) = batch"
  by (simp add: windowEvents_def started_append started_starts started_settles)

lemma atWindow_started:
  "atWindow env tickr mode chunks s0 k = Some s \<Longrightarrow>
   started (trace s) = started (trace s0) @ take (k * CONCURRENCY) chunks"
proof (induction k arbitrary: s)
  case 0
  then show ?case by simp
next
  case (Suc k)
  from Suc.prems obtain s1 where
    s1: "atWindow env tickr mode chunks s0 k = Some s1"
    and body: "windowBody env tickr mode chunks (k * CONCURRENCY) s1 = Normal s"
    using atWindow_Suc_elim by blast
  have nf: "\<not> list_ex isFatal
      (promiseAll env tickr mode (take CONCURRENCY (drop (k * CONCURRENCY) chunks)))"
    using body by (rule windowBody_Normal_no_fatal)
  from windowBody_Normal [OF nf, of s1] body
  have "trace s = trace s1
      @ windowEvents env tickr mode (take CONCURRENCY (drop (k * CONCURRENCY) chunks))"
    by auto
  then show ?case
    using Suc.IH [OF s1]
    by (simp only: started_append started_windowEvents take_next_window append_assoc)
qed

subsection \<open>Fetch calls in flight\<close>

lemma inFlight_append: "inFlight (xs @ ys) = inFlight xs + inFlight ys"
  by (induction xs rule: inFlight.induct) auto

lemma inFlight_starts: "inFlight (map FetchStart cs) = int (length cs)"
  by (induction cs) auto

lemma inFlight_settles: "inFlight (map FetchSettled cs) = - int (length cs)"
  by (induction cs) auto

lemma inFlight_windowEvents: "inFlight (windowEvents env tickr mode batch) = 0"
  by (simp add: windowEvents_def inFlight_append inFlight_starts inFlight_settles)

lemma prefix_map_length:
  assumes "prefix es (map f cs)"
  shows "\<exists>ds. es = map f ds \<and> length ds \<le> length cs"
proof -
  from prefix_map_rightE [OF assms] obtain ds where "prefix ds cs" "es = map f ds"
    by blast
  then show ?thesis
    by (auto simp add: prefix_def)
qed

lemma prefix_windowEvents:
  assumes "prefix es (windowEvents env tickr mode batch)"
  shows "0 \<le> inFlight es \<and> inFlight es \<le> int (length batch)"
proof -
  let ?settle = "map FetchSettled (sort_key (resolveTime env tickr mode) batch)"
  from assms have "prefix es (map FetchStart batch)
      \<or> (\<exists>us. es = map FetchStart batch @ us \<and> prefix us ?settle)"
    by (simp add: windowEvents_def prefix_append)
  then show ?thesis
  proof
    assume "prefix es (map FetchStart batch)"
    then obtain ds where "es = map FetchStart ds" "length ds \<le> length batch"
      using prefix_map_length by blast
    then show ?thesis by (simp add: inFlight_starts)
  next
    assume "\<exists>us. es = map FetchStart batch @ us \<and> prefix us ?settle"
    then obtain us where es: "es = map FetchStart batch @ us" and "prefix us ?settle"
      by blast
    then obtain ds where "us = map FetchSettled ds"
      "length ds \<le> length (sort_key (resolveTime env tickr mode) batch)"
      using prefix_map_length by blast
    then show ?thesis
      using es by (simp add: inFlight_append inFlight_starts inFlight_settles)
  qed
qed

lemma prefix_window_traces:
  assumes "\<forall>w \<in> set ws. length w \<le> CONCURRENCY"
    and "prefix es (concat (map (windowEvents env tickr mode) ws))"
  shows "0 \<le> inFlight es \<and> inFlight es \<le> int CONCURRENCY"
  using assms
proof (induction ws arbitrary: es)
  case Nil
  then show ?case by simp
next
  case (Cons w ws)
  from Cons.prems(2) have "prefix es (windowEvents env tickr mode w)
      \<or> (\<exists>us. es = windowEvents env tickr mode w @ us
            \<and> prefix us (concat (map (windowEvents env tickr mode) ws)))"
    by (simp add: prefix_append)
  then show ?case
  proof
    assume "prefix es (windowEvents env tickr mode w)"
    then have "0 \<le> inFlight es \<and> inFlight es \<le> int (length w)"
      by (rule prefix_windowEvents)
    then show ?thesis using Cons.prems(1) by simp
  next
    assume "\<exists>us. es = windowEvents env tickr mode w @ us
            \<and> prefix us (concat (map (windowEvents env tickr mode) ws))"
    then obtain us where es: "es = windowEvents env tickr mode w @ us"
      and us: "prefix us (concat (map (windowEvents env tickr mode) ws))"
      by blast
    have "0 \<le> inFlight us \<and> inFlight us \<le> int CONCURRENCY"
      using Cons.prems(1) us by (intro Cons.IH) auto
    then show ?thesis
      using es by (simp add: inFlight_append inFlight_windowEvents)
  qed
qed

subsection \<open>The order of the items of one batch\<close>

lemma processResults_newsData:
  "newsData (stateOf (processResults rs s))
     = newsData s @ successItems (takeWhile (\<lambda>r. \<not> isFatal r) rs)"
proof (induction rs arbitrary: s)
  case Nil
  then show ?case by simp
next
  case (Cons r rs)
  then show ?case by (cases r) (auto simp add: isFatal_def Let_def)
qed

lemma promiseAll_resolvedAt:
  "promiseAll (env\<lparr>resolvedAt := anyOrder\<rparr>) tickr mode batch = promiseAll env tickr mode batch"
  by (simp add: promiseAll_def wrappedFetch_def)

lemma windowBody_newsData:
  "newsData (stateOf (windowBody env tickr mode chunks i s))
     = newsData s @ successItems (takeWhile (\<lambda>r. \<not> isFatal r)
         (promiseAll env tickr mode (take CONCURRENCY (drop i chunks))))"
proof -
  let ?s2 = "awaitAll env tickr mode (i div CONCURRENCY + 1) (take CONCURRENCY (drop i chunks))
       (s\<lparr>progressStr := batchMessage (i div CONCURRENCY + 1)
            (nat \<lceil>real (length chunks) / real CONCURRENCY\<rceil>)
            (length (take CONCURRENCY (drop i chunks))) (totalGenerated s) (errorCount s)\<rparr>)"
  let ?p = "processResults (promiseAll env tickr mode (take CONCURRENCY (drop i chunks))) ?s2"
  have "newsData (stateOf (windowBody env tickr mode chunks i s)) = newsData (stateOf ?p)"
    unfolding windowBody_def Let_def
    by (cases ?p) (simp_all add: pause_def)
  also have "\<dots> = newsData ?s2 @ successItems (takeWhile (\<lambda>r. \<not> isFatal r)
         (promiseAll env tickr mode (take CONCURRENCY (drop i chunks))))"
    by (rule processResults_newsData)
  finally show ?thesis by (simp add: awaitAll_def)
qed

subsection \<open>The claims about a run\<close>

text \<open>The sample chunk lists are what the planner gives for 100 and for 51 days at density 1.5.\<close>

lemma plan_sixChunks: "plan 0 100 (3 / 2) = sixChunks"
  by code_simp

lemma plan_threeChunks: "plan 0 51 (3 / 2) = threeChunks"
  by code_simp

text \<open>
  Claim C1, as the specification states it, fails. In the second window of this run the
  chunk at position 4 fails fatally and the chunk after it, in the same window, succeeds
  with the item SYN-85: its fetch was awaited and settled, yet the loop over the results
  throws at the fatal one before it reaches that result, and the item is never
  appended.
\<close>

theorem fatal_error_aborts_run_counterexample:
  "sixChunks ! 4 \<in> set (windows sixChunks ! 1) \<and> sixChunks ! 5 \<in> set (windows sixChunks ! 1)
   \<and> wrappedFetch envFatal ''SPX'' SYNTHETIC (sixChunks ! 4)
       = Failure (Error (Some ''API Key not valid''))
   \<and> isFatal (wrappedFetch envFatal ''SPX'' SYNTHETIC (sixChunks ! 4))
   \<and> wrappedFetch envFatal ''SPX'' SYNTHETIC (sixChunks ! 5) = Success [sampleItem ''SYN-85'']
   \<and> FetchSettled (sixChunks ! 5)
       \<in> set (trace (handleSequenceGenerate envFatal ''SPX'' 0 100 SYNTHETIC (3 / 2) (sampleState [])))
   \<and> error (handleSequenceGenerate envFatal ''SPX'' 0 100 SYNTHETIC (3 / 2) (sampleState []))
       = Some ''API Key not valid''
   \<and> sampleItem ''SYN-85''
       \<notin> set (newsData (handleSequenceGenerate envFatal ''SPX'' 0 100 SYNTHETIC (3 / 2) (sampleState [])))"
  by code_simp

text \<open>
  Claim C1, amended. Suppose the run reaches the head of window \<open>k\<close> in state \<open>s\<close>
  and dispatches it, and the results of that window, in the order of its chunks, are
  \<open>pre\<close>, then a failure whose message contains "API Key", then \<open>post\<close>, with no such
  failure in \<open>pre\<close>. Then the fetches started in the whole run are those of the windows
  up to \<open>k\<close>, all settled, and no later window is dispatched; the accumulator holds
  what it held before the run, the items of all earlier windows, and the items of the
  successes in \<open>pre\<close>; the run ends in the error state that the catch block derives
  from this error (its message, unless that contains "API Key is missing"), with no
  completion or stop message.
\<close>

theorem fatal_error_aborts_run:
  assumes "atWindow env tickr mode chunks (initRun a) k = Some s"
    and "k * CONCURRENCY < length chunks" and "\<not> stopRef s"
    and "promiseAll env tickr mode (take CONCURRENCY (drop (k * CONCURRENCY) chunks))
          = pre @ Failure e # post"
    and "\<not> list_ex isFatal pre" and "message_includes e ''API Key''"
  shows "(let r = runChunks env tickr mode chunks a
          in trace r = concat (map (windowEvents env tickr mode) (take (Suc k) (windows chunks)))
           \<and> newsData r = newsData a
                @ successItems (promiseAll env tickr mode (take (k * CONCURRENCY) chunks))
                @ successItems pre
           \<and> error r \<noteq> None
           \<and> error r = error (catchBlock env e a)
           \<and> (\<not> message_includes e ''API Key is missing'' \<longrightarrow> error r = message e)
           \<and> progressStr r \<noteq> stoppedMessage (totalGenerated r) (errorCount r)
           \<and> progressStr r \<noteq> completedMessage (totalGenerated r) (errorCount r)
           \<and> \<not> isGenerating r)"
proof -
  let ?s0 = "initRun a"
  let ?b = "take CONCURRENCY (drop (k * CONCURRENCY) chunks)"
  note c = atWindow_closed [OF assms(1)]
  from windowBody_Throw [OF assms(4,5,6), of s]
  obtain s' where body: "windowBody env tickr mode chunks (k * CONCURRENCY) s = Throw e s'"
    and f: "newsData s' = newsData s @ successItems pre"
      "trace s' = trace s @ windowEvents env tickr mode ?b"
      "progressStr s' = batchMessage (k * CONCURRENCY div CONCURRENCY + 1)
            (nat \<lceil>real (length chunks) / real CONCURRENCY\<rceil>)
            (length ?b) (totalGenerated s) (errorCount s)"
    by auto
  have "batchLoop env tickr mode chunks 0 ?s0 = batchLoop env tickr mode chunks (k * CONCURRENCY) s"
    by (rule batchLoop_atWindow [OF assms(1)])
  also have "\<dots> = Throw e s'"
    using assms(2,3) body by (subst batchLoop.simps) simp
  finally have r: "runChunks env tickr mode chunks a = afterLoop env (Throw e s')"
    by (simp add: runChunks_def)
  have tr: "trace s' = concat (map (windowEvents env tickr mode) (take (Suc k) (windows chunks)))"
    using c f(2) by (simp add: take_windows_Suc [OF assms(2)] initRun_fields)
  have nd: "newsData s' = newsData a
      @ successItems (promiseAll env tickr mode (take (k * CONCURRENCY) chunks)) @ successItems pre"
    using c f(1) by (simp add: initRun_fields)
  have msg: "\<not> message_includes e ''API Key is missing'' \<longrightarrow> error (catchBlock env e s') = message e"
    using assms(6) by (simp add: catchBlock_message)
  have batch_msg: "progressStr s' \<noteq> stoppedMessage x y" "progressStr s' \<noteq> completedMessage x y" for x y
    unfolding f(3) by (simp_all add: batchMessage_def stoppedMessage_def completedMessage_def)
  show ?thesis
    unfolding Let_def r afterLoop_Throw
    using tr nd msg batch_msg catchBlock_fields [of env e s' a] catchBlock_fields [of env e a a]
    by simp
qed

theorem fatal_error_aborts_run_witness:
  "atWindow envFatal ''SPX'' SYNTHETIC sixChunks (initRun (sampleState [])) 1 \<noteq> None
   \<and> promiseAll envFatal ''SPX'' SYNTHETIC (take CONCURRENCY (drop (1 * CONCURRENCY) sixChunks))
       = [Success [sampleItem ''SYN-51'']] @ Failure (Error (Some ''API Key not valid''))
           # [Success [sampleItem ''SYN-85'']]
   \<and> message_includes (Error (Some ''API Key not valid'')) ''API Key''
   \<and> trace (runChunks envFatal ''SPX'' SYNTHETIC sixChunks (sampleState []))
       = concat (map (windowEvents envFatal ''SPX'' SYNTHETIC) (windows sixChunks))
   \<and> newsData (runChunks envFatal ''SPX'' SYNTHETIC sixChunks (sampleState []))
       = [sampleItem ''SYN-0'', sampleItem ''SYN-17'', sampleItem ''SYN-34'', sampleItem ''SYN-51'']
   \<and> error (runChunks envFatal ''SPX'' SYNTHETIC sixChunks (sampleState []))
       = Some ''API Key not valid''"
proof -
  let ?at = "atWindow envFatal ''SPX'' SYNTHETIC sixChunks (initRun (sampleState [])) 1"
  let ?e = "Error (Some ''API Key not valid'')"
  let ?pre = "[Success [sampleItem ''SYN-51'']]"
  let ?post = "[Success [sampleItem ''SYN-85'']]"
  have reached: "?at \<noteq> None"
    by code_simp
  then have h1: "?at = Some (the ?at)"
    by simp
  have h2: "1 * CONCURRENCY < length sixChunks"
    by code_simp
  have h3: "\<not> stopRef (the ?at)"
    by code_simp
  have h4: "promiseAll envFatal ''SPX'' SYNTHETIC (take CONCURRENCY (drop (1 * CONCURRENCY) sixChunks))
      = ?pre @ Failure ?e # ?post"
    by code_simp
  have h5: "\<not> list_ex isFatal ?pre"
    by code_simp
  have h6: "message_includes ?e ''API Key''"
    by code_simp
  have other: "\<not> message_includes ?e ''API Key is missing''"
    by code_simp
  have two: "take (Suc 1) (windows sixChunks) = windows sixChunks"
    by code_simp
  have items: "newsData (sampleState [])
      @ successItems (promiseAll envFatal ''SPX'' SYNTHETIC (take (1 * CONCURRENCY) sixChunks))
      @ successItems ?pre
      = [sampleItem ''SYN-0'', sampleItem ''SYN-17'', sampleItem ''SYN-34'', sampleItem ''SYN-51'']"
    by code_simp
  note run = fatal_error_aborts_run [OF h1 h2 h3 h4 h5 h6, unfolded Let_def]
  from run have tr: "trace (runChunks envFatal ''SPX'' SYNTHETIC sixChunks (sampleState []))
      = concat (map (windowEvents envFatal ''SPX'' SYNTHETIC) (take (Suc 1) (windows sixChunks)))"
    by blast
  from run have nd: "newsData (runChunks envFatal ''SPX'' SYNTHETIC sixChunks (sampleState []))
      = newsData (sampleState [])
        @ successItems (promiseAll envFatal ''SPX'' SYNTHETIC (take (1 * CONCURRENCY) sixChunks))
        @ successItems ?pre"
    by blast
  from run other have er: "error (runChunks envFatal ''SPX'' SYNTHETIC sixChunks (sampleState []))
      = message ?e"
    by blast
  show ?thesis
    using reached h4 h6 tr nd er unfolding two items by simp
qed

text \<open>
  Claim C3. Suppose the run reaches the head of window \<open>k\<close> in state \<open>s\<close> and
  dispatches it, another window follows it, no result of window \<open>k\<close> is fatal, and
  stop is requested while the fetches of window \<open>k\<close> are awaited or during the pause
  after it. Then the fetches started in the whole run are those of the windows up to
  \<open>k\<close>, all of them settled: window \<open>k + 1\<close> exists and is never dispatched, and a
  request made while window \<open>k\<close> was in flight did not keep any of its fetches from
  settling or its results from being appended. The accumulator holds what it held
  before the run and the items of every success of the windows up to \<open>k\<close>. The pause
  after window \<open>k\<close> is slept exactly when the request did not come before it, and the
  run ends with the stop message.
\<close>

theorem stop_request_ends_run_at_window_boundary:
  assumes "atWindow env tickr mode chunks (initRun a) k = Some s"
    and "Suc k * CONCURRENCY < length chunks" and "\<not> stopRef s"
    and "\<not> list_ex isFatal (promiseAll env tickr mode (take CONCURRENCY (drop (k * CONCURRENCY) chunks)))"
    and "stopDuringFetch env (Suc k) \<or> stopDuringPause env (Suc k)"
  shows "(let r = runChunks env tickr mode chunks a
          in trace r = concat (map (windowEvents env tickr mode) (take (Suc k) (windows chunks)))
           \<and> Suc k < length (windows chunks)
           \<and> newsData r = newsData a
                @ successItems (promiseAll env tickr mode (take (Suc k * CONCURRENCY) chunks))
           \<and> pauses r = pauses s @ (if stopDuringFetch env (Suc k) then [] else [1000])
           \<and> progressStr r = stoppedMessage (totalGenerated r) (errorCount r)
           \<and> error r = None
           \<and> \<not> isGenerating r)"
proof -
  let ?s0 = "initRun a"
  let ?b = "take CONCURRENCY (drop (k * CONCURRENCY) chunks)"
  have lt: "k * CONCURRENCY < length chunks"
    using assms(2) by simp
  have idx: "k * CONCURRENCY div CONCURRENCY + 1 = Suc k"
    by (simp add: CONCURRENCY_def)
  have more: "k * CONCURRENCY + CONCURRENCY < length chunks"
    using assms(2) by (simp add: add.commute)
  from windowBody_Normal [OF assms(4), of s]
  obtain s' where body: "windowBody env tickr mode chunks (k * CONCURRENCY) s = Normal s'"
    and f: "stopRef s' = (stopRef s \<or> stopDuringFetch env (Suc k)
          \<or> (k * CONCURRENCY + CONCURRENCY < length chunks \<and> stopDuringPause env (Suc k)))"
      "pauses s' = pauses s @
          (if k * CONCURRENCY + CONCURRENCY < length chunks
              \<and> \<not> (stopRef s \<or> stopDuringFetch env (Suc k))
           then [1000] else [])"
    unfolding idx by auto
  have next_at: "atWindow env tickr mode chunks ?s0 (Suc k) = Some s'"
    using assms(1,3) lt body by simp
  note c = atWindow_closed [OF next_at]
  have stop: "stopRef s'"
    using f(1) assms(5) more by auto
  have "batchLoop env tickr mode chunks 0 ?s0 = batchLoop env tickr mode chunks (Suc k * CONCURRENCY) s'"
    by (rule batchLoop_atWindow [OF next_at])
  also have "\<dots> = Normal s'"
    using stop by (subst batchLoop.simps) simp
  finally have r: "runChunks env tickr mode chunks a = afterLoop env (Normal s')"
    by (simp add: runChunks_def)
  have exists_next: "Suc k < length (windows chunks)"
    using windows_nth [OF assms(2)] by simp
  have ps: "pauses s' = pauses s @ (if stopDuringFetch env (Suc k) then [] else [1000])"
    using f(2) more assms(3) by simp
  show ?thesis
    unfolding Let_def r afterLoop_Normal
    using c stop exists_next ps by (simp add: initRun_fields)
qed

theorem stop_request_ends_run_at_window_boundary_witness:
  "Suc 0 * CONCURRENCY < length sixChunks
   \<and> stopDuringPause envStop (Suc 0)
   \<and> Suc 0 < length (windows sixChunks)
   \<and> trace (runChunks envStop ''SPX'' SYNTHETIC sixChunks (sampleState []))
       = windowEvents envStop ''SPX'' SYNTHETIC (windows sixChunks ! 0)
   \<and> newsData (runChunks envStop ''SPX'' SYNTHETIC sixChunks (sampleState []))
       = [sampleItem ''SYN-0'', sampleItem ''SYN-17'', sampleItem ''SYN-34'']
   \<and> pauses (runChunks envStop ''SPX'' SYNTHETIC sixChunks (sampleState [])) = [1000]
   \<and> progressStr (runChunks envStop ''SPX'' SYNTHETIC sixChunks (sampleState []))
       = ''Stopped by user. Total: 3. Errors: 0''"
proof -
  let ?s = "initRun (sampleState [])"
  have h1: "atWindow envStop ''SPX'' SYNTHETIC sixChunks ?s 0 = Some ?s"
    by simp
  have h2: "Suc 0 * CONCURRENCY < length sixChunks"
    by code_simp
  have h3: "\<not> stopRef ?s"
    by code_simp
  have h4: "\<not> list_ex isFatal
      (promiseAll envStop ''SPX'' SYNTHETIC (take CONCURRENCY (drop (0 * CONCURRENCY) sixChunks)))"
    by code_simp
  have pressed: "stopDuringPause envStop (Suc 0)"
    by code_simp
  then have h5: "stopDuringFetch envStop (Suc 0) \<or> stopDuringPause envStop (Suc 0)"
    by simp
  have during_fetch: "\<not> stopDuringFetch envStop (Suc 0)"
    by code_simp
  have one: "concat (map (windowEvents envStop ''SPX'' SYNTHETIC) (take (Suc 0) (windows sixChunks)))
      = windowEvents envStop ''SPX'' SYNTHETIC (windows sixChunks ! 0)"
    by code_simp
  have items: "newsData (sampleState [])
      @ successItems (promiseAll envStop ''SPX'' SYNTHETIC (take (Suc 0 * CONCURRENCY) sixChunks))
      = [sampleItem ''SYN-0'', sampleItem ''SYN-17'', sampleItem ''SYN-34'']"
    by code_simp
  have totals: "stoppedMessage
      (totalGenerated (runChunks envStop ''SPX'' SYNTHETIC sixChunks (sampleState [])))
      (errorCount (runChunks envStop ''SPX'' SYNTHETIC sixChunks (sampleState [])))
      = ''Stopped by user. Total: 3. Errors: 0''"
    by code_simp
  have no_pauses: "pauses ?s = []"
    by code_simp
  note run = stop_request_ends_run_at_window_boundary [OF h1 h2 h3 h4 h5, unfolded Let_def]
  from run have more: "Suc 0 < length (windows sixChunks)"
    by blast
  from run have tr: "trace (runChunks envStop ''SPX'' SYNTHETIC sixChunks (sampleState []))
      = concat (map (windowEvents envStop ''SPX'' SYNTHETIC) (take (Suc 0) (windows sixChunks)))"
    by blast
  from run have nd: "newsData (runChunks envStop ''SPX'' SYNTHETIC sixChunks (sampleState []))
      = newsData (sampleState [])
        @ successItems (promiseAll envStop ''SPX'' SYNTHETIC (take (Suc 0 * CONCURRENCY) sixChunks))"
    by blast
  from run have ps: "pauses (runChunks envStop ''SPX'' SYNTHETIC sixChunks (sampleState []))
      = pauses ?s @ (if stopDuringFetch envStop (Suc 0) then [] else [1000])"
    by blast
  from run have msg: "progressStr (runChunks envStop ''SPX'' SYNTHETIC sixChunks (sampleState []))
      = stoppedMessage
          (totalGenerated (runChunks envStop ''SPX'' SYNTHETIC sixChunks (sampleState [])))
          (errorCount (runChunks envStop ''SPX'' SYNTHETIC sixChunks (sampleState [])))"
    by blast
  show ?thesis
    using h2 pressed more tr nd ps msg during_fetch unfolding one items totals no_pauses by simp
qed

text \<open>
  Claim C5, as the specification states it, fails. In this run of one window the third
  fetch resolves first and the first one last, so the items taken in the order in which
  the fetches resolve would be SYN-34, SYN-17, SYN-0; the accumulator holds them in the
  order of the chunks.
\<close>

theorem window_items_in_submission_order_counterexample:
  "resolveTime envOk ''SPX'' SYNTHETIC (threeChunks ! 2) < resolveTime envOk ''SPX'' SYNTHETIC (threeChunks ! 1)
   \<and> resolveTime envOk ''SPX'' SYNTHETIC (threeChunks ! 1) < resolveTime envOk ''SPX'' SYNTHETIC (threeChunks ! 0)
   \<and> itemsInResolutionOrder envOk ''SPX'' SYNTHETIC threeChunks
       = [sampleItem ''SYN-34'', sampleItem ''SYN-17'', sampleItem ''SYN-0'']
   \<and> newsData (handleSequenceGenerate envOk ''SPX'' 0 51 SYNTHETIC (3 / 2) (sampleState []))
       = [sampleItem ''SYN-0'', sampleItem ''SYN-17'', sampleItem ''SYN-34'']
   \<and> newsData (handleSequenceGenerate envOk ''SPX'' 0 51 SYNTHETIC (3 / 2) (sampleState []))
       \<noteq> itemsInResolutionOrder envOk ''SPX'' SYNTHETIC threeChunks"
  by code_simp

text \<open>
  Claim C5, amended. The results that \<open>Promise.all\<close> hands to the loop are in the order
  of the chunks of the batch. After the batch, the accumulator is what it was, followed
  by the items of the successful chunks in that order, up to the first fatal failure if
  there is one, and by those of all successful chunks if there is none. Replacing the
  resolve times by any others leaves the accumulator the same.
\<close>

theorem window_items_in_submission_order:
  "(let batch = take CONCURRENCY (drop i chunks);
        results = promiseAll env tickr mode batch;
        s' = stateOf (windowBody env tickr mode chunks i s);
        s'' = stateOf (windowBody (env\<lparr>resolvedAt := anyOrder\<rparr>) tickr mode chunks i s)
    in results = map (wrappedFetch env tickr mode) batch
     \<and> newsData s' = newsData s @ successItems (takeWhile (\<lambda>r. \<not> isFatal r) results)
     \<and> (\<not> list_ex isFatal results \<longrightarrow> newsData s' = newsData s @ successItems results)
     \<and> newsData s'' = newsData s')"
proof -
  let ?rs = "promiseAll env tickr mode (take CONCURRENCY (drop i chunks))"
  let ?s' = "stateOf (windowBody env tickr mode chunks i s)"
  have order: "?rs = map (wrappedFetch env tickr mode) (take CONCURRENCY (drop i chunks))"
    by (simp add: promiseAll_def)
  have upto: "newsData ?s' = newsData s @ successItems (takeWhile (\<lambda>r. \<not> isFatal r) ?rs)"
    by (rule windowBody_newsData)
  have all: "\<not> list_ex isFatal ?rs \<longrightarrow> newsData ?s' = newsData s @ successItems ?rs"
  proof
    assume "\<not> list_ex isFatal ?rs"
    then have "takeWhile (\<lambda>r. \<not> isFatal r) ?rs = ?rs"
      by (simp add: list_ex_iff takeWhile_eq_all_conv)
    with upto show "newsData ?s' = newsData s @ successItems ?rs"
      by simp
  qed
  have same: "newsData (stateOf (windowBody (env\<lparr>resolvedAt := anyOrder\<rparr>) tickr mode chunks i s))
      = newsData ?s'"
    by (simp only: windowBody_newsData promiseAll_resolvedAt)
  show ?thesis
    unfolding Let_def using order upto all same by blast
qed

theorem window_items_in_submission_order_witness:
  "\<not> list_ex isFatal (promiseAll envOk ''SPX'' SYNTHETIC (take CONCURRENCY (drop 0 threeChunks)))
   \<and> newsData (stateOf (windowBody envOk ''SPX'' SYNTHETIC threeChunks 0 (initRun (sampleState []))))
       = [sampleItem ''SYN-0'', sampleItem ''SYN-17'', sampleItem ''SYN-34'']
   \<and> newsData (stateOf (windowBody (envOk\<lparr>resolvedAt := (\<lambda>t s e m c. nat s)\<rparr>)
         ''SPX'' SYNTHETIC threeChunks 0 (initRun (sampleState []))))
       = [sampleItem ''SYN-0'', sampleItem ''SYN-17'', sampleItem ''SYN-34'']"
proof -
  let ?rs = "promiseAll envOk ''SPX'' SYNTHETIC (take CONCURRENCY (drop 0 threeChunks))"
  let ?s = "initRun (sampleState [])"
  have nf: "\<not> list_ex isFatal ?rs"
    by code_simp
  have items: "newsData ?s @ successItems ?rs
      = [sampleItem ''SYN-0'', sampleItem ''SYN-17'', sampleItem ''SYN-34'']"
    by code_simp
  note w = window_items_in_submission_order
    [where env = envOk and tickr = "''SPX''" and mode = SYNTHETIC and i = 0 and chunks = threeChunks
      and s = ?s and anyOrder = "\<lambda>t s e m c. nat s", unfolded Let_def]
  from w nf have a: "newsData (stateOf (windowBody envOk ''SPX'' SYNTHETIC threeChunks 0 ?s))
      = newsData ?s @ successItems ?rs"
    by blast
  from w have b: "newsData (stateOf (windowBody (envOk\<lparr>resolvedAt := (\<lambda>t s e m c. nat s)\<rparr>)
         ''SPX'' SYNTHETIC threeChunks 0 ?s))
      = newsData (stateOf (windowBody envOk ''SPX'' SYNTHETIC threeChunks 0 ?s))"
    by blast
  show ?thesis
    using nf a b unfolding items by simp
qed

text \<open>
  Claim C6. \<open>CONCURRENCY\<close> is 3. The windows are consecutive slices of the chunk list
  that together make up the list, each of at least one and at most \<open>CONCURRENCY\<close> chunks,
  and window \<open>k\<close> is the slice the loop takes at index \<open>k * CONCURRENCY\<close>. The trace of
  a run is, for some number \<open>n\<close> of windows, the events of the first \<open>n\<close> windows one
  window after the other: every fetch of a window settles before a fetch of the next
  starts. At every point of the trace the number of fetches in flight is between 0 and
  \<open>CONCURRENCY\<close>.
\<close>

theorem bounded_concurrency:
  "(let r = runChunks env tickr mode chunks a
    in CONCURRENCY = 3
     \<and> concat (windows chunks) = chunks
     \<and> (\<forall>w \<in> set (windows chunks). w \<noteq> [] \<and> length w \<le> CONCURRENCY)
     \<and> (\<forall>k. k * CONCURRENCY < length chunks \<longrightarrow>
            windows chunks ! k = take CONCURRENCY (drop (k * CONCURRENCY) chunks))
     \<and> (\<exists>n \<le> length (windows chunks).
            trace r = concat (map (windowEvents env tickr mode) (take n (windows chunks))))
     \<and> (\<forall>es. prefix es (trace r) \<longrightarrow> 0 \<le> inFlight es \<and> inFlight es \<le> int CONCURRENCY))"
proof -
  let ?r = "runChunks env tickr mode chunks a"
  have sizes: "\<forall>w \<in> set (windows chunks). w \<noteq> [] \<and> length w \<le> CONCURRENCY"
    using windows_sizes by blast
  have slices: "\<forall>k. k * CONCURRENCY < length chunks \<longrightarrow>
            windows chunks ! k = take CONCURRENCY (drop (k * CONCURRENCY) chunks)"
    using windows_nth by blast
  have blocks: "\<exists>n \<le> length (windows chunks).
            trace ?r = concat (map (windowEvents env tickr mode) (take n (windows chunks)))"
  proof -
    from run_ends [of env tickr mode chunks a] obtain k sk where
      at: "atWindow env tickr mode chunks (initRun a) k = Some sk"
      and ends: "(batchLoop env tickr mode chunks 0 (initRun a) = Normal sk
          \<and> (length chunks \<le> k * CONCURRENCY \<or> stopRef sk))
        \<or> (k * CONCURRENCY < length chunks \<and> \<not> stopRef sk
          \<and> (\<exists>e s'. windowBody env tickr mode chunks (k * CONCURRENCY) sk = Throw e s'
                \<and> batchLoop env tickr mode chunks 0 (initRun a) = Throw e s'))"
      by blast
    note c = atWindow_closed [OF at]
    from ends show ?thesis
    proof
      assume "batchLoop env tickr mode chunks 0 (initRun a) = Normal sk
          \<and> (length chunks \<le> k * CONCURRENCY \<or> stopRef sk)"
      then have "trace ?r = trace sk"
        by (simp add: runChunks_def afterLoop_Normal)
      with c show ?thesis
        by (intro exI [of _ k]) (simp add: initRun_fields)
    next
      assume t: "k * CONCURRENCY < length chunks \<and> \<not> stopRef sk
          \<and> (\<exists>e s'. windowBody env tickr mode chunks (k * CONCURRENCY) sk = Throw e s'
                \<and> batchLoop env tickr mode chunks 0 (initRun a) = Throw e s')"
      then obtain e s' where
        body: "windowBody env tickr mode chunks (k * CONCURRENCY) sk = Throw e s'"
        and loop: "batchLoop env tickr mode chunks 0 (initRun a) = Throw e s'"
        by blast
      have "trace s' = trace sk
          @ windowEvents env tickr mode (take CONCURRENCY (drop (k * CONCURRENCY) chunks))"
        using windowBody_Throw_elim [OF body] by blast
      moreover have "trace ?r = trace s'"
        using loop by (simp add: runChunks_def afterLoop_Throw catchBlock_fields)
      moreover have "Suc k \<le> length (windows chunks)"
        using t windows_nth [of k chunks] by simp
      ultimately show ?thesis
        using c t by (intro exI [of _ "Suc k"]) (simp add: take_windows_Suc initRun_fields)
    qed
  qed
  have flight: "\<forall>es. prefix es (trace ?r) \<longrightarrow> 0 \<le> inFlight es \<and> inFlight es \<le> int CONCURRENCY"
  proof (intro allI impI)
    fix es assume p: "prefix es (trace ?r)"
    from blocks obtain n where
      tr: "trace ?r = concat (map (windowEvents env tickr mode) (take n (windows chunks)))"
      by blast
    have "\<forall>w \<in> set (take n (windows chunks)). length w \<le> CONCURRENCY"
      using sizes by (auto dest: in_set_takeD)
    then show "0 \<le> inFlight es \<and> inFlight es \<le> int CONCURRENCY"
      using p unfolding tr by (rule prefix_window_traces)
  qed
  show ?thesis
    unfolding Let_def using sizes slices blocks flight
    by (simp add: windows_concat) (simp add: CONCURRENCY_def)
qed

theorem bounded_concurrency_witness:
  "take 3 sixChunks \<in> set (windows sixChunks)
   \<and> length (take 3 sixChunks) \<le> CONCURRENCY
   \<and> 1 * CONCURRENCY < length sixChunks
   \<and> windows sixChunks ! 1 = take CONCURRENCY (drop (1 * CONCURRENCY) sixChunks)
   \<and> prefix (take 8 (trace (runChunks envOk ''SPX'' SYNTHETIC sixChunks (sampleState []))))
        (trace (runChunks envOk ''SPX'' SYNTHETIC sixChunks (sampleState [])))
   \<and> inFlight (take 8 (trace (runChunks envOk ''SPX'' SYNTHETIC sixChunks (sampleState [])))) = 2
   \<and> inFlight (take 8 (trace (runChunks envOk ''SPX'' SYNTHETIC sixChunks (sampleState []))))
        \<le> int CONCURRENCY"
proof -
  let ?r = "runChunks envOk ''SPX'' SYNTHETIC sixChunks (sampleState [])"
  have w: "take 3 sixChunks \<in> set (windows sixChunks)"
    by code_simp
  have k: "1 * CONCURRENCY < length sixChunks"
    by code_simp
  have p: "prefix (take 8 (trace ?r)) (trace ?r)"
    by (rule take_is_prefix)
  have v: "inFlight (take 8 (trace ?r)) = 2"
    by code_simp
  note b = bounded_concurrency [where env = envOk and tickr = "''SPX''" and mode = SYNTHETIC
    and chunks = sixChunks and a = "sampleState []", unfolded Let_def]
  from b w have "length (take 3 sixChunks) \<le> CONCURRENCY"
    by blast
  moreover from b k have "windows sixChunks ! 1 = take CONCURRENCY (drop (1 * CONCURRENCY) sixChunks)"
    by blast
  moreover from b p have "inFlight (take 8 (trace ?r)) \<le> int CONCURRENCY"
    by blast
  ultimately show ?thesis
    using w k p v by simp
qed

text \<open>
  Claim C7. With three chunks, of which exactly one fails and that one not fatally, and
  no stop requested while they are awaited: two chunks succeed, \<open>totalGenerated\<close> is
  the sum of their item counts, \<open>errorCount\<close> is 1, their items are appended, there is
  one window, no error is set, and the run ends with the completion message.
\<close>

theorem single_window_transient_failure:
  assumes "length chunks = 3"
    and "failures (promiseAll env tickr mode chunks) = 1"
    and "\<not> list_ex isFatal (promiseAll env tickr mode chunks)"
    and "\<not> stopDuringFetch env 1"
  shows "(let results = promiseAll env tickr mode chunks;
              r = runChunks env tickr mode chunks a
          in length (filter is_success results) = 2
           \<and> totalGenerated r = sum_list (map (length \<circ> items) (filter is_success results))
           \<and> errorCount r = 1
           \<and> newsData r = newsData a @ successItems results
           \<and> trace r = windowEvents env tickr mode chunks
           \<and> error r = None
           \<and> progressStr r = completedMessage (totalGenerated r) 1
           \<and> \<not> isGenerating r)"
proof -
  let ?rs = "promiseAll env tickr mode chunks"
  let ?s0 = "initRun a"
  have batch: "take CONCURRENCY (drop 0 chunks) = chunks"
    using assms(1) by (simp add: CONCURRENCY_def)
  have two: "length (filter is_success ?rs) = 2"
    using successes_and_failures [of ?rs] assms(1,2) by (simp add: promiseAll_def)
  from windowBody_Normal [of env tickr mode 0 chunks ?s0] assms(3) batch
  obtain s' where body: "windowBody env tickr mode chunks 0 ?s0 = Normal s'"
    and f: "newsData s' = newsData ?s0 @ successItems ?rs"
      "totalGenerated s' = totalGenerated ?s0 + length (successItems ?rs)"
      "errorCount s' = errorCount ?s0 + failures ?rs"
      "trace s' = trace ?s0 @ windowEvents env tickr mode chunks"
      "error s' = error ?s0"
      "stopRef s' = (stopRef ?s0 \<or> stopDuringFetch env (0 div CONCURRENCY + 1)
          \<or> (0 + CONCURRENCY < length chunks \<and> stopDuringPause env (0 div CONCURRENCY + 1)))"
    by auto
  have ns: "\<not> stopRef s'"
    using f(6) assms(1,4) by (simp add: initRun_fields CONCURRENCY_def)
  have "batchLoop env tickr mode chunks 0 ?s0 = batchLoop env tickr mode chunks (0 + CONCURRENCY) s'"
    using body assms(1) by (subst batchLoop.simps) (simp add: initRun_fields)
  also have "\<dots> = Normal s'"
    using assms(1) by (subst batchLoop.simps) (simp add: CONCURRENCY_def)
  finally have r: "runChunks env tickr mode chunks a = afterLoop env (Normal s')"
    by (simp add: runChunks_def)
  show ?thesis
    unfolding Let_def r afterLoop_Normal
    using two f ns assms(2) by (simp add: initRun_fields length_successItems)
qed

theorem single_window_transient_failure_witness:
  "length threeChunks = 3
   \<and> failures (promiseAll envTransient ''SPX'' SYNTHETIC threeChunks) = 1
   \<and> \<not> list_ex isFatal (promiseAll envTransient ''SPX'' SYNTHETIC threeChunks)
   \<and> \<not> stopDuringFetch envTransient 1
   \<and> totalGenerated (runChunks envTransient ''SPX'' SYNTHETIC threeChunks (sampleState [])) = 2
   \<and> errorCount (runChunks envTransient ''SPX'' SYNTHETIC threeChunks (sampleState [])) = 1
   \<and> newsData (runChunks envTransient ''SPX'' SYNTHETIC threeChunks (sampleState []))
       = [sampleItem ''SYN-0'', sampleItem ''SYN-34'']
   \<and> error (runChunks envTransient ''SPX'' SYNTHETIC threeChunks (sampleState [])) = None
   \<and> progressStr (runChunks envTransient ''SPX'' SYNTHETIC threeChunks (sampleState []))
       = ''Sequence Completed! Total: 2. Errors: 1''"
proof -
  let ?rs = "promiseAll envTransient ''SPX'' SYNTHETIC threeChunks"
  let ?r = "runChunks envTransient ''SPX'' SYNTHETIC threeChunks (sampleState [])"
  have h1: "length threeChunks = 3"
    by code_simp
  have h2: "failures ?rs = 1"
    by code_simp
  have h3: "\<not> list_ex isFatal ?rs"
    by code_simp
  have h4: "\<not> stopDuringFetch envTransient 1"
    by code_simp
  have total: "sum_list (map (length \<circ> items) (filter is_success ?rs)) = 2"
    by code_simp
  have appended: "newsData (sampleState []) @ successItems ?rs
      = [sampleItem ''SYN-0'', sampleItem ''SYN-34'']"
    by code_simp
  have shown: "completedMessage 2 1 = ''Sequence Completed! Total: 2. Errors: 1''"
    by code_simp
  note run = single_window_transient_failure [OF h1 h2 h3 h4, where a = "sampleState []", unfolded Let_def]
  from run have tg: "totalGenerated ?r = sum_list (map (length \<circ> items) (filter is_success ?rs))"
    by blast
  from run have ec: "errorCount ?r = 1"
    by blast
  from run have nd: "newsData ?r = newsData (sampleState []) @ successItems ?rs"
    by blast
  from run have er: "error ?r = None"
    by blast
  from run have msg: "progressStr ?r = completedMessage (totalGenerated ?r) 1"
    by blast
  from tg have tg2: "totalGenerated ?r = 2"
    unfolding total .
  from msg have shown2: "progressStr ?r = ''Sequence Completed! Total: 2. Errors: 1''"
    unfolding tg2 shown .
  from nd have nd2: "newsData ?r = [sampleItem ''SYN-0'', sampleItem ''SYN-34'']"
    unfolding appended .
  show ?thesis
    using h1 h2 h3 h4 tg2 ec nd2 er shown2 by blast
qed

text \<open>
  Claim C8, as the specification states it, fails. This run is aborted by a fatal error
  in its second window, with one failed chunk and four items appended; its last
  progress message is the announcement of that window, which says nothing of an abort
  and carries the totals from before the window: three items and no error.
\<close>

theorem terminal_progress_message_counterexample:
  "errorCount (handleSequenceGenerate envFatal ''SPX'' 0 100 SYNTHETIC (3 / 2) (sampleState [])) = 1
   \<and> totalGenerated (handleSequenceGenerate envFatal ''SPX'' 0 100 SYNTHETIC (3 / 2) (sampleState [])) = 4
   \<and> error (handleSequenceGenerate envFatal ''SPX'' 0 100 SYNTHETIC (3 / 2) (sampleState []))
       = Some ''API Key not valid''
   \<and> progressStr (handleSequenceGenerate envFatal ''SPX'' 0 100 SYNTHETIC (3 / 2) (sampleState []))
       = ''Batch 2/2: Crawling 3 parallel segments... | Total: 3 | Errors: 0''"
  by code_simp

text \<open>
  Claim C8, amended. When the loop ends normally, the final progress message is the
  stop message if stop was requested and the completion message otherwise, and it
  carries the number of items appended by the run and the number of failed chunks among
  those fetched. When the loop is left by a fatal error, no final progress message is
  set: the error state is set, and the progress string stays the announcement of the
  aborted window, whose error count is from before that window and so below the
  run's.
\<close>

theorem terminal_progress_message:
  "(let r = runChunks env tickr mode chunks a;
        results = promiseAll env tickr mode (started (trace r))
    in case batchLoop env tickr mode chunks 0 (initRun a) of
         Normal s \<Rightarrow>
           progressStr r = (if stopRef s then stoppedMessage (totalGenerated r) (errorCount r)
                            else completedMessage (totalGenerated r) (errorCount r))
           \<and> newsData r = newsData a @ successItems results
           \<and> totalGenerated r = length (successItems results)
           \<and> errorCount r = failures results
           \<and> error r = None
       | Throw e s \<Rightarrow>
           error r \<noteq> None \<and> error r = error (catchBlock env e a)
           \<and> message_includes e ''API Key''
           \<and> (\<exists>k sk. atWindow env tickr mode chunks (initRun a) k = Some sk
                 \<and> progressStr r = batchMessage (Suc k)
                      (nat \<lceil>real (length chunks) / real CONCURRENCY\<rceil>)
                      (length (take CONCURRENCY (drop (k * CONCURRENCY) chunks)))
                      (totalGenerated sk) (errorCount sk)
                 \<and> errorCount sk < errorCount r))"
proof -
  let ?r = "runChunks env tickr mode chunks a"
  from run_ends [of env tickr mode chunks a] obtain k sk where
    at: "atWindow env tickr mode chunks (initRun a) k = Some sk"
    and ends: "(batchLoop env tickr mode chunks 0 (initRun a) = Normal sk
        \<and> (length chunks \<le> k * CONCURRENCY \<or> stopRef sk))
      \<or> (k * CONCURRENCY < length chunks \<and> \<not> stopRef sk
        \<and> (\<exists>e s'. windowBody env tickr mode chunks (k * CONCURRENCY) sk = Throw e s'
              \<and> batchLoop env tickr mode chunks 0 (initRun a) = Throw e s'))"
    by blast
  note c = atWindow_closed [OF at]
  note st = atWindow_started [OF at]
  from ends show ?thesis
  proof
    assume n: "batchLoop env tickr mode chunks 0 (initRun a) = Normal sk
        \<and> (length chunks \<le> k * CONCURRENCY \<or> stopRef sk)"
    then have r: "?r = afterLoop env (Normal sk)"
      by (simp add: runChunks_def)
    show ?thesis
      unfolding Let_def r afterLoop_Normal using n c st
      by (simp add: initRun_fields)
  next
    assume t: "k * CONCURRENCY < length chunks \<and> \<not> stopRef sk
        \<and> (\<exists>e s'. windowBody env tickr mode chunks (k * CONCURRENCY) sk = Throw e s'
              \<and> batchLoop env tickr mode chunks 0 (initRun a) = Throw e s')"
    then obtain e s' where
      body: "windowBody env tickr mode chunks (k * CONCURRENCY) sk = Throw e s'"
      and loop: "batchLoop env tickr mode chunks 0 (initRun a) = Throw e s'"
      by blast
    from windowBody_Throw_elim [OF body] obtain pre post where
      f: "message_includes e ''API Key''"
        "errorCount s' = errorCount sk + failures pre + 1"
        "progressStr s' = batchMessage (k * CONCURRENCY div CONCURRENCY + 1)
            (nat \<lceil>real (length chunks) / real CONCURRENCY\<rceil>)
            (length (take CONCURRENCY (drop (k * CONCURRENCY) chunks)))
            (totalGenerated sk) (errorCount sk)"
      by blast
    have idx: "k * CONCURRENCY div CONCURRENCY + 1 = Suc k"
      by (simp add: CONCURRENCY_def)
    have r: "?r = afterLoop env (Throw e s')"
      using loop by (simp add: runChunks_def)
    have stale: "\<exists>k sk. atWindow env tickr mode chunks (initRun a) k = Some sk
                 \<and> progressStr ?r = batchMessage (Suc k)
                      (nat \<lceil>real (length chunks) / real CONCURRENCY\<rceil>)
                      (length (take CONCURRENCY (drop (k * CONCURRENCY) chunks)))
                      (totalGenerated sk) (errorCount sk)
                 \<and> errorCount sk < errorCount ?r"
      unfolding r afterLoop_Throw using at f(2,3) idx
      by (intro exI [of _ k] exI [of _ sk]) (simp add: catchBlock_fields)
    have err: "error ?r \<noteq> None \<and> error ?r = error (catchBlock env e a)"
      unfolding r afterLoop_Throw
      using catchBlock_fields [of env e s' a] catchBlock_fields [of env e a a] by simp
    show ?thesis
      unfolding Let_def loop completion.case using stale err f(1) by blast
  qed
qed

theorem terminal_progress_message_witness:
  "progressStr (runChunks envStop ''SPX'' SYNTHETIC sixChunks (sampleState []))
       = ''Stopped by user. Total: 3. Errors: 0''
   \<and> length (newsData (runChunks envStop ''SPX'' SYNTHETIC sixChunks (sampleState []))) = 3
   \<and> error (runChunks envStop ''SPX'' SYNTHETIC sixChunks (sampleState [])) = None
   \<and> error (runChunks envFatal ''SPX'' SYNTHETIC sixChunks (sampleState [])) \<noteq> None"
proof -
  let ?L = "batchLoop envStop ''SPX'' SYNTHETIC sixChunks 0 (initRun (sampleState []))"
  let ?r = "runChunks envStop ''SPX'' SYNTHETIC sixChunks (sampleState [])"
  let ?F = "batchLoop envFatal ''SPX'' SYNTHETIC sixChunks 0 (initRun (sampleState []))"
  have "case ?L of Normal s \<Rightarrow> True | Throw e s \<Rightarrow> False"
    by code_simp
  then have normal: "?L = Normal (stateOf ?L)"
    by (cases ?L) simp_all
  have stopped: "stopRef (stateOf ?L)"
    by code_simp
  have "case ?F of Normal s \<Rightarrow> False | Throw e s \<Rightarrow> True"
    by code_simp
  then obtain e s where thrown: "?F = Throw e s"
    by (cases ?F) simp_all
  have fetched: "length (newsData (sampleState [])
      @ successItems (promiseAll envStop ''SPX'' SYNTHETIC (started (trace ?r)))) = 3"
    by code_simp
  have succeeded: "length (successItems (promiseAll envStop ''SPX'' SYNTHETIC (started (trace ?r)))) = 3"
    by code_simp
  have failed: "failures (promiseAll envStop ''SPX'' SYNTHETIC (started (trace ?r))) = 0"
    by code_simp
  have shown: "stoppedMessage 3 0 = ''Stopped by user. Total: 3. Errors: 0''"
    by code_simp
  note run = terminal_progress_message
    [where env = envStop and tickr = "''SPX''" and mode = SYNTHETIC and chunks = sixChunks
      and a = "sampleState []", unfolded Let_def]
  have n: "progressStr ?r = (if stopRef (stateOf ?L)
        then stoppedMessage (totalGenerated ?r) (errorCount ?r)
        else completedMessage (totalGenerated ?r) (errorCount ?r))
      \<and> newsData ?r = newsData (sampleState [])
          @ successItems (promiseAll envStop ''SPX'' SYNTHETIC (started (trace ?r)))
      \<and> totalGenerated ?r = length (successItems (promiseAll envStop ''SPX'' SYNTHETIC (started (trace ?r))))
      \<and> errorCount ?r = failures (promiseAll envStop ''SPX'' SYNTHETIC (started (trace ?r)))
      \<and> error ?r = None"
    using run by (subst (asm) normal) (simp only: completion.case)
  note abort = terminal_progress_message
    [where env = envFatal and tickr = "''SPX''" and mode = SYNTHETIC and chunks = sixChunks
      and a = "sampleState []", unfolded Let_def thrown completion.case]
  from abort have t: "error (runChunks envFatal ''SPX'' SYNTHETIC sixChunks (sampleState [])) \<noteq> None"
    by blast
  from n have tg: "totalGenerated ?r = 3"
    unfolding succeeded by blast
  from n have ec: "errorCount ?r = 0"
    unfolding failed by blast
  from n stopped have "progressStr ?r = stoppedMessage (totalGenerated ?r) (errorCount ?r)"
    by simp
  then have shown2: "progressStr ?r = ''Stopped by user. Total: 3. Errors: 0''"
    unfolding tg ec shown .
  from n have "length (newsData ?r) = length (newsData (sampleState [])
      @ successItems (promiseAll envStop ''SPX'' SYNTHETIC (started (trace ?r))))"
    by simp
  then have len: "length (newsData ?r) = 3"
    unfolding fetched .
  from n have er: "error ?r = None"
    by blast
  show ?thesis
    using shown2 len er t by blast
qed

end
